theory Spec2Isabelle
  imports Main "HOL-Library.AList"
begin

section \<open>Containers and primitive values\<close>

text \<open>
  The TypeScript sources keep all state in \<^verbatim>\<open>Map\<close> and \<^verbatim>\<open>Set\<close> objects, which iterate in
  insertion order. A \<^verbatim>\<open>Map\<close> is modelled as an association list in insertion order:
  \<^verbatim>\<open>get\<close>/\<^verbatim>\<open>has\<close> is \<^const>\<open>map_of\<close>, \<^verbatim>\<open>set\<close> is \<^const>\<open>AList.update\<close> (an existing key keeps
  its position, a new key goes to the end) and \<^verbatim>\<open>delete\<close> is \<^const>\<open>AList.delete\<close>.
  A \<^verbatim>\<open>Set\<close> is a list in insertion order to which \<open>Set_add\<close> only appends absent
  elements. Objects held in a \<^verbatim>\<open>Map\<close> and mutated in place (a \<^verbatim>\<open>Room\<close>, a \<^verbatim>\<open>Set\<close>, an
  array of reactions) are each referenced from exactly one entry, so the mutation is the
  update of that entry. A \<^verbatim>\<open>Date\<close> is its number of milliseconds; every \<^verbatim>\<open>new Date()\<close> reads
  the clock, which the model takes as an argument. Calls of the logger only write to the
  console and are left out.
\<close>

type_synonym ('k, 'v) Map = "('k \<times> 'v) list"
type_synonym 'a Set = "'a list"
type_synonym Date = int

definition Set_add :: "'a \<Rightarrow> 'a Set \<Rightarrow> 'a Set" where
  "Set_add x xs = (if x \<in> set xs then xs else xs @ [x])"

definition Set_delete :: "'a \<Rightarrow> 'a Set \<Rightarrow> 'a Set" where
  "Set_delete x xs = removeAll x xs"

text \<open>JavaScript truthiness of a string: only the empty string is falsy.\<close>

definition truthy :: "string \<Rightarrow> bool" where
  "truthy s = (s \<noteq> [])"

text \<open>\<^verbatim>\<open>Array.prototype.findIndex\<close>: the index of the first match, or \<open>-1\<close>.\<close>

fun findIndex :: "('a \<Rightarrow> bool) \<Rightarrow> 'a list \<Rightarrow> int" where
  "findIndex P [] = - 1"
| "findIndex P (x # xs) =
     (if P x then 0
      else (let i = findIndex P xs in if i = - 1 then - 1 else i + 1))"

text \<open>\<^verbatim>\<open>xs.splice(index, 1)\<close> for an index that \<open>findIndex\<close> returned.\<close>

definition splice1 :: "int \<Rightarrow> 'a list \<Rightarrow> 'a list" where
  "splice1 i xs = take (nat i) xs @ drop (Suc (nat i)) xs"

section \<open>Domain types\<close>

record Reaction =
  userId :: string
  username :: string
  emoji :: string
  timestamp :: Date

record RoomUser =
  socketId :: string
  userId :: string
  username :: string
  joinedAt :: Date

record Room =
  id' :: string
  users :: "(string, RoomUser) Map"
  createdAt :: Date

section \<open>ConnectionManager\<close>

record ConnectionManager =
  socketToUser :: "(string, string) Map"
  userToSockets :: "(string, string Set) Map"

definition ConnectionManager_init :: ConnectionManager where
  "ConnectionManager_init = \<lparr>socketToUser = [], userToSockets = []\<rparr>"

text \<open>
  Where the source asserts with \<^verbatim>\<open>!\<close> that an entry it has just created is present, the
  model has a case distinction whose \<open>None\<close> branch is never taken; for \<open>addConnection\<close>
  this is lemma \<open>addConnection_set_defined\<close>.
\<close>

definition addConnection :: "string \<Rightarrow> string \<Rightarrow> ConnectionManager \<Rightarrow> ConnectionManager" where
  "addConnection sid uid s =
     (let s1 = s\<lparr>socketToUser := AList.update sid uid (socketToUser s)\<rparr>;
          s2 = (if map_of (userToSockets s1) uid = None
                then s1\<lparr>userToSockets := AList.update uid [] (userToSockets s1)\<rparr>
                else s1)
      in case map_of (userToSockets s2) uid of
           None \<Rightarrow> s2
         | Some socks \<Rightarrow>
             s2\<lparr>userToSockets := AList.update uid (Set_add sid socks) (userToSockets s2)\<rparr>)"

definition removeConnection :: "string \<Rightarrow> ConnectionManager \<Rightarrow> ConnectionManager" where
  "removeConnection sid s =
     (let s1 =
        (case map_of (socketToUser s) sid of
           None \<Rightarrow> s
         | Some uid \<Rightarrow>
             if truthy uid then
               (let s' = (case map_of (userToSockets s) uid of
                            None \<Rightarrow> s
                          | Some socks \<Rightarrow>
                              s\<lparr>userToSockets :=
                                   AList.update uid (Set_delete sid socks) (userToSockets s)\<rparr>)
                in if (case map_of (userToSockets s') uid of
                         None \<Rightarrow> False
                       | Some socks \<Rightarrow> length socks = 0)
                   then s'\<lparr>userToSockets := AList.delete uid (userToSockets s')\<rparr>
                   else s')
             else s)
      in s1\<lparr>socketToUser := AList.delete sid (socketToUser s1)\<rparr>)"

definition getConnectionsByUser :: "string \<Rightarrow> ConnectionManager \<Rightarrow> string list" where
  "getConnectionsByUser uid s =
     (case map_of (userToSockets s) uid of None \<Rightarrow> [] | Some socks \<Rightarrow> socks)"

definition getUserBySocket :: "string \<Rightarrow> ConnectionManager \<Rightarrow> string option" where
  "getUserBySocket sid s = map_of (socketToUser s) sid"

section \<open>RoomManager\<close>

record RoomManager =
  rooms :: "(string, Room) Map"
  socketToRooms :: "(string, string Set) Map"

definition RoomManager_init :: RoomManager where
  "RoomManager_init = \<lparr>rooms = [], socketToRooms = []\<rparr>"

definition createRoom :: "string \<Rightarrow> Date \<Rightarrow> RoomManager \<Rightarrow> RoomManager" where
  "createRoom rid now s =
     (if map_of (rooms s) rid = None
      then s\<lparr>rooms := AList.update rid \<lparr>id' = rid, users = [], createdAt = now\<rparr> (rooms s)\<rparr>
      else s)"

text \<open>
  In \<open>joinRoom\<close> the two non-null assertions of the source (\<^verbatim>\<open>this.rooms.get(roomId)!\<close> and
  \<^verbatim>\<open>this.socketToRooms.get(user.socketId)!\<close>) follow a statement that has just created the
  entry, so the \<open>None\<close> branches below are never taken (lemmas \<open>joinRoom_room_defined\<close> and
  \<open>joinRoom_set_defined\<close>).
\<close>

definition joinRoom :: "string \<Rightarrow> RoomUser \<Rightarrow> Date \<Rightarrow> RoomManager \<Rightarrow> RoomManager" where
  "joinRoom rid user now s =
     (let s1 = (if map_of (rooms s) rid = None then createRoom rid now s else s);
          s2 = (case map_of (rooms s1) rid of
                  None \<Rightarrow> s1
                | Some room \<Rightarrow>
                    s1\<lparr>rooms :=
                         AList.update rid
                           (room\<lparr>users := AList.update (socketId user) user (users room)\<rparr>)
                           (rooms s1)\<rparr>);
          s3 = (if map_of (socketToRooms s2) (socketId user) = None
                then s2\<lparr>socketToRooms := AList.update (socketId user) [] (socketToRooms s2)\<rparr>
                else s2)
      in case map_of (socketToRooms s3) (socketId user) of
           None \<Rightarrow> s3
         | Some rs \<Rightarrow>
             s3\<lparr>socketToRooms :=
                  AList.update (socketId user) (Set_add rid rs) (socketToRooms s3)\<rparr>)"

definition leaveRoom :: "string \<Rightarrow> string \<Rightarrow> RoomManager \<Rightarrow> RoomManager" where
  "leaveRoom rid sid s =
     (let s1 =
        (case map_of (rooms s) rid of
           None \<Rightarrow> s
         | Some room \<Rightarrow>
             (let room' = room\<lparr>users := AList.delete sid (users room)\<rparr>;
                  s' = s\<lparr>rooms := AList.update rid room' (rooms s)\<rparr>
              in if length (users room') = 0
                 then s'\<lparr>rooms := AList.delete rid (rooms s')\<rparr>
                 else s'))
      in case map_of (socketToRooms s1) sid of
           None \<Rightarrow> s1
         | Some rs \<Rightarrow>
             s1\<lparr>socketToRooms := AList.update sid (Set_delete rid rs) (socketToRooms s1)\<rparr>)"

text \<open>
  \<^verbatim>\<open>rooms.forEach\<close> in \<open>leaveAllRooms\<close> walks the live \<^verbatim>\<open>Set\<close> while the callback deletes
  from it. \<^verbatim>\<open>Set.prototype.forEach\<close> visits every entry that has not been deleted before it
  is reached, and the callback deletes only the entry being visited, so the walk visits
  each room id of the set as it was at the start, in order.
\<close>

definition leaveAllRooms :: "string \<Rightarrow> RoomManager \<Rightarrow> RoomManager" where
  "leaveAllRooms sid s =
     (case map_of (socketToRooms s) sid of
        None \<Rightarrow> s
      | Some rs \<Rightarrow>
          (let s1 = foldl (\<lambda>st rid. leaveRoom rid sid st) s rs
           in s1\<lparr>socketToRooms := AList.delete sid (socketToRooms s1)\<rparr>))"

definition getRoomUsers :: "string \<Rightarrow> RoomManager \<Rightarrow> RoomUser list" where
  "getRoomUsers rid s =
     (case map_of (rooms s) rid of None \<Rightarrow> [] | Some room \<Rightarrow> map snd (users room))"

definition getUserRooms :: "string \<Rightarrow> RoomManager \<Rightarrow> string list" where
  "getUserRooms sid s =
     (case map_of (socketToRooms s) sid of None \<Rightarrow> [] | Some rs \<Rightarrow> rs)"

definition roomExists :: "string \<Rightarrow> RoomManager \<Rightarrow> bool" where
  "roomExists rid s = (map_of (rooms s) rid \<noteq> None)"

definition isUserInRoom :: "string \<Rightarrow> string \<Rightarrow> RoomManager \<Rightarrow> bool" where
  "isUserInRoom rid sid s =
     (case map_of (rooms s) rid of
        None \<Rightarrow> False
      | Some room \<Rightarrow> map_of (users room) sid \<noteq> None)"

text \<open>Sequences of calls on a \<open>RoomManager\<close> that starts empty.\<close>

datatype RoomManager_call =
    CreateRoom string Date
  | JoinRoom string RoomUser Date
  | LeaveRoom string string
  | LeaveAllRooms string

fun RoomManager_do :: "RoomManager \<Rightarrow> RoomManager_call \<Rightarrow> RoomManager" where
  "RoomManager_do s (CreateRoom rid now) = createRoom rid now s"
| "RoomManager_do s (JoinRoom rid user now) = joinRoom rid user now s"
| "RoomManager_do s (LeaveRoom rid sid) = leaveRoom rid sid s"
| "RoomManager_do s (LeaveAllRooms sid) = leaveAllRooms sid s"

definition RoomManager_run :: "RoomManager_call list \<Rightarrow> RoomManager" where
  "RoomManager_run calls = foldl RoomManager_do RoomManager_init calls"

fun is_CreateRoom :: "RoomManager_call \<Rightarrow> bool" where
  "is_CreateRoom (CreateRoom rid now) = True"
| "is_CreateRoom c = False"

section \<open>ReactionManager\<close>

record ReactionManager =
  reactions :: "(string, (string, Reaction list) Map) Map"

definition ReactionManager_init :: ReactionManager where
  "ReactionManager_init = \<lparr>reactions = []\<rparr>"

text \<open>
  As in \<open>joinRoom\<close>, the non-null assertions of \<open>addReaction\<close> follow the creation of the
  entry; the \<open>None\<close> branches stand for them and are never taken (lemma
  \<open>created_entry_defined\<close>).
\<close>

definition addReaction :: "string \<Rightarrow> Reaction \<Rightarrow> ReactionManager \<Rightarrow> ReactionManager" where
  "addReaction mid reaction s =
     (let m1 = (if map_of (reactions s) mid = None
                then AList.update mid [] (reactions s)
                else reactions s)
      in case map_of m1 mid of
           None \<Rightarrow> s\<lparr>reactions := m1\<rparr>
         | Some messageReactions \<Rightarrow>
             (let mr1 = (if map_of messageReactions (Reaction.emoji reaction) = None
                         then AList.update (Reaction.emoji reaction) [] messageReactions
                         else messageReactions)
              in case map_of mr1 (Reaction.emoji reaction) of
                   None \<Rightarrow> s\<lparr>reactions := AList.update mid mr1 m1\<rparr>
                 | Some emojiReactions \<Rightarrow>
                     (let existingIndex =
                            findIndex (\<lambda>r. Reaction.userId r = Reaction.userId reaction)
                              emojiReactions;
                          emojiReactions' =
                            (if existingIndex = - 1 then emojiReactions @ [reaction]
                             else emojiReactions)
                      in s\<lparr>reactions :=
                             AList.update mid
                               (AList.update (Reaction.emoji reaction) emojiReactions' mr1)
                               m1\<rparr>)))"

definition removeReaction :: "string \<Rightarrow> string \<Rightarrow> string \<Rightarrow> ReactionManager \<Rightarrow> ReactionManager" where
  "removeReaction mid uid em s =
     (case map_of (reactions s) mid of
        None \<Rightarrow> s
      | Some messageReactions \<Rightarrow>
          (case map_of messageReactions em of
             None \<Rightarrow> s
           | Some emojiReactions \<Rightarrow>
               (let index = findIndex (\<lambda>r. Reaction.userId r = uid) emojiReactions
                in if index \<noteq> - 1 then
                     (let emojiReactions' = splice1 index emojiReactions;
                          mr1 = AList.update em emojiReactions' messageReactions;
                          mr2 = (if length emojiReactions' = 0 then AList.delete em mr1
                                 else mr1);
                          m1 = AList.update mid mr2 (reactions s)
                      in s\<lparr>reactions :=
                             (if length mr2 = 0 then AList.delete mid m1 else m1)\<rparr>)
                   else s)))"

definition getReactions :: "string \<Rightarrow> ReactionManager \<Rightarrow> (string, Reaction list) Map" where
  "getReactions mid s =
     (case map_of (reactions s) mid of None \<Rightarrow> [] | Some messageReactions \<Rightarrow> messageReactions)"

definition hasUserReacted :: "string \<Rightarrow> string \<Rightarrow> string \<Rightarrow> ReactionManager \<Rightarrow> bool" where
  "hasUserReacted mid uid em s =
     (case map_of (reactions s) mid of
        None \<Rightarrow> False
      | Some messageReactions \<Rightarrow>
          (case map_of messageReactions em of
             None \<Rightarrow> False
           | Some emojiReactions \<Rightarrow> list_ex (\<lambda>r. Reaction.userId r = uid) emojiReactions))"

text \<open>Sequences of calls on a \<open>ReactionManager\<close> that starts empty.\<close>

datatype ReactionManager_call =
    AddReaction string Reaction
  | RemoveReaction string string string

fun ReactionManager_do :: "ReactionManager \<Rightarrow> ReactionManager_call \<Rightarrow> ReactionManager" where
  "ReactionManager_do s (AddReaction mid reaction) = addReaction mid reaction s"
| "ReactionManager_do s (RemoveReaction mid uid em) = removeReaction mid uid em s"

definition ReactionManager_run :: "ReactionManager_call list \<Rightarrow> ReactionManager" where
  "ReactionManager_run calls = foldl ReactionManager_do ReactionManager_init calls"

section \<open>Errors and outgoing events\<close>

text \<open>
  A thrown exception is a value: \<open>Error msg\<close> for \<^verbatim>\<open>new Error(msg)\<close> and
  \<open>ValidationError msg issues\<close> for the subclass that carries the schema issues, each a
  path and a message.
  A method that may throw returns the exception, if any, together with the state at the
  moment it returned or threw.
\<close>

type_synonym ZodIssue = "string \<times> string"

datatype error = Error string | ValidationError string "ZodIssue list"

type_synonym 'w outcome = "error option \<times> 'w"

text \<open>The \<^verbatim>\<open>{userId, username}\<close> objects of the outgoing payloads.\<close>

type_synonym UserRef = "string \<times> string"

datatype EventData =
    RoomUserLeft string UserRef "UserRef list"
      \<comment> \<open>\<^verbatim>\<open>{roomId, user, users}\<close>\<close>
  | ChatMessageOut string string UserRef string Date "(string \<times> UserRef list) list"
      \<comment> \<open>\<^verbatim>\<open>{messageId, roomId, sender, message, timestamp, reactions}\<close>\<close>
  | ReactionUpdated string string "(string \<times> UserRef list) list"
      \<comment> \<open>\<^verbatim>\<open>{messageId, roomId, reactions}\<close>\<close>
  | RoomTyping string string string bool
      \<comment> \<open>\<^verbatim>\<open>{roomId, userId, username, isTyping}\<close>\<close>

text \<open>One \<^verbatim>\<open>io.to(target).emit(eventName, data)\<close>.\<close>

type_synonym Emission = "string \<times> string \<times> EventData"

section \<open>WebSocketServer\<close>

text \<open>
  The object graph that \<^verbatim>\<open>Application\<close> wires: one connection manager, one room manager
  and one reaction manager shared by the server and the handlers. The field \<open>io\<close> stands
  for the Socket.IO server that \<^verbatim>\<open>start\<close> installs before any connection can be accepted;
  it holds, oldest first, the emissions handed to it.
\<close>

record Application =
  connectionManager :: ConnectionManager
  roomManager :: RoomManager
  reactionManager :: ReactionManager
  io :: "Emission list"

definition emit :: "string \<Rightarrow> string \<Rightarrow> EventData \<Rightarrow> Application \<Rightarrow> Application" where
  "emit tgt ev dat w = w\<lparr>io := io w @ [(tgt, ev, dat)]\<rparr>"

text \<open>
  \<open>broadcastToRoom\<close>: the optional \<^verbatim>\<open>excludeSocketId\<close> is an \<open>option\<close>; the test
  \<^verbatim>\<open>!excludeSocketId\<close> holds when it is missing and also when it is the empty string.
\<close>

definition broadcastToRoom ::
    "string \<Rightarrow> string \<Rightarrow> EventData \<Rightarrow> string option \<Rightarrow> Application \<Rightarrow> Application" where
  "broadcastToRoom rid ev dat excludeSocketId w =
     foldl (\<lambda>st user.
              if (case excludeSocketId of None \<Rightarrow> True | Some x \<Rightarrow> \<not> truthy x)
                 \<or> Some (socketId user) \<noteq> excludeSocketId
              then emit (socketId user) ev dat st
              else st)
       w (getRoomUsers rid (roomManager w))"

definition toUserRef :: "RoomUser \<Rightarrow> UserRef" where
  "toUserRef u = (RoomUser.userId u, RoomUser.username u)"

text \<open>The body of the \<^verbatim>\<open>rooms.forEach\<close> of \<open>handleDisconnect\<close>.\<close>

definition disconnectRoom :: "string \<Rightarrow> Application \<Rightarrow> string \<Rightarrow> Application" where
  "disconnectRoom sid w rid =
     (let users = getRoomUsers rid (roomManager w);
          leavingUser = find (\<lambda>u. socketId u = sid) users;
          w1 = w\<lparr>roomManager := leaveRoom rid sid (roomManager w)\<rparr>
      in case leavingUser of
           None \<Rightarrow> w1
         | Some lu \<Rightarrow>
             broadcastToRoom rid ''room:user_left''
               (RoomUserLeft rid (toUserRef lu)
                  (map toUserRef (getRoomUsers rid (roomManager w1))))
               None w1)"

definition handleDisconnect :: "string \<Rightarrow> Application \<Rightarrow> Application" where
  "handleDisconnect sid w =
     (let rs = getUserRooms sid (roomManager w);
          w1 = foldl (disconnectRoom sid) w rs
      in w1\<lparr>connectionManager := removeConnection sid (connectionManager w1)\<rparr>)"

section \<open>Handlers\<close>

text \<open>The validated payloads, as the schemas type them.\<close>

record ChatMessage =
  message :: string
  roomId :: string
  messageId :: string
  timestamp :: "string option"

record MessageReaction =
  messageId :: string
  roomId :: string
  emoji :: string

record TypingIndicator =
  roomId :: string
  isTyping :: bool

text \<open>
  \<open>BaseMessageHandler.handle\<close>. The schema is a third-party parser; it is a parameter,
  returning the issues or the parsed data. The payload is typed \<^verbatim>\<open>any\<close> in the source
  and is a type variable here.
\<close>

definition handle ::
    "('a \<Rightarrow> ZodIssue list + 'a) option \<Rightarrow> (string \<Rightarrow> string \<Rightarrow> 'a \<Rightarrow> 'w \<Rightarrow> 'w outcome)
       \<Rightarrow> string \<Rightarrow> string \<Rightarrow> 'a \<Rightarrow> 'w \<Rightarrow> 'w outcome" where
  "handle schema execute sid ev dat w =
     (case schema of
        Some safeParse \<Rightarrow>
          (case safeParse dat of
             Inl issues \<Rightarrow> (Some (ValidationError ''Invalid data format'' issues), w)
           | Inr parsed \<Rightarrow> execute sid ev parsed w)
      | None \<Rightarrow> execute sid ev dat w)"

definition ChatMessageHandler_execute ::
    "Date \<Rightarrow> string \<Rightarrow> string \<Rightarrow> ChatMessage \<Rightarrow> Application \<Rightarrow> Application outcome" where
  "ChatMessageHandler_execute now sid ev dat w =
     (if \<not> isUserInRoom (ChatMessage.roomId dat) sid (roomManager w)
      then (Some (Error ''User not in room''), w)
      else
        (let users = getRoomUsers (ChatMessage.roomId dat) (roomManager w)
         in case find (\<lambda>u. socketId u = sid) users of
              None \<Rightarrow> (Some (Error ''Sender not found''), w)
            | Some sender \<Rightarrow>
                (None,
                 broadcastToRoom (ChatMessage.roomId dat) ''chat:message''
                   (ChatMessageOut (ChatMessage.messageId dat) (ChatMessage.roomId dat)
                      (toUserRef sender) (message dat) now [])
                   None w)))"

text \<open>
  In \<open>MessageReactionHandler_execute\<close> the object \<^verbatim>\<open>reactionsFormatted\<close> is filled in the
  order of the \<^verbatim>\<open>Map\<close> that \<open>getReactions\<close> returns and is kept as a list in that order.
\<close>

definition MessageReactionHandler_execute ::
    "Date \<Rightarrow> string \<Rightarrow> string \<Rightarrow> MessageReaction \<Rightarrow> Application
       \<Rightarrow> Application outcome" where
  "MessageReactionHandler_execute now sid ev dat w =
     (if \<not> isUserInRoom (MessageReaction.roomId dat) sid (roomManager w)
      then (Some (Error ''User not in room''), w)
      else
        (let users = getRoomUsers (MessageReaction.roomId dat) (roomManager w)
         in case find (\<lambda>u. socketId u = sid) users of
              None \<Rightarrow> (Some (Error ''User not found''), w)
            | Some user \<Rightarrow>
                (let hasReacted =
                       hasUserReacted (MessageReaction.messageId dat) (RoomUser.userId user)
                         (MessageReaction.emoji dat) (reactionManager w);
                     w1 =
                       (if hasReacted
                        then w\<lparr>reactionManager :=
                                 removeReaction (MessageReaction.messageId dat)
                                   (RoomUser.userId user) (MessageReaction.emoji dat)
                                   (reactionManager w)\<rparr>
                        else w\<lparr>reactionManager :=
                                 addReaction (MessageReaction.messageId dat)
                                   \<lparr>Reaction.userId = RoomUser.userId user,
                                    Reaction.username = RoomUser.username user,
                                    Reaction.emoji = MessageReaction.emoji dat,
                                    Reaction.timestamp = now\<rparr>
                                   (reactionManager w)\<rparr>);
                     messageReactions =
                       getReactions (MessageReaction.messageId dat) (reactionManager w1);
                     reactionsFormatted =
                       map (\<lambda>(em, rs).
                              (em, map (\<lambda>r. (Reaction.userId r, Reaction.username r)) rs))
                         messageReactions
                 in (None,
                     broadcastToRoom (MessageReaction.roomId dat) ''message:reaction_updated''
                       (ReactionUpdated (MessageReaction.messageId dat)
                          (MessageReaction.roomId dat) reactionsFormatted)
                       None w1))))"

definition TypingIndicatorHandler_execute ::
    "string \<Rightarrow> string \<Rightarrow> TypingIndicator \<Rightarrow> Application \<Rightarrow> Application outcome" where
  "TypingIndicatorHandler_execute sid ev dat w =
     (if \<not> isUserInRoom (TypingIndicator.roomId dat) sid (roomManager w)
      then (Some (Error ''User not in room''), w)
      else
        (let users = getRoomUsers (TypingIndicator.roomId dat) (roomManager w)
         in case find (\<lambda>u. socketId u = sid) users of
              None \<Rightarrow> (Some (Error ''Typer not found''), w)
            | Some typer \<Rightarrow>
                (None,
                 broadcastToRoom (TypingIndicator.roomId dat) ''room:typing''
                   (RoomTyping (TypingIndicator.roomId dat) (RoomUser.userId typer)
                      (RoomUser.username typer) (isTyping dat))
                   (Some sid) w)))"

section \<open>MessageRouter\<close>

text \<open>
  The handler table maps an event name to the \<open>handle\<close> method of the registered
  handler. The \<^verbatim>\<open>try\<close>/\<^verbatim>\<open>catch\<close> of \<open>route\<close> rethrows what it caught.
\<close>

type_synonym ('a, 'w) IMessageHandler =
  "string \<Rightarrow> string \<Rightarrow> 'a \<Rightarrow> 'w \<Rightarrow> 'w outcome"

definition registerHandler ::
    "string \<Rightarrow> ('a, 'w) IMessageHandler \<Rightarrow> (string, ('a, 'w) IMessageHandler) Map
       \<Rightarrow> (string, ('a, 'w) IMessageHandler) Map" where
  "registerHandler ev handler handlers = AList.update ev handler handlers"

definition route ::
    "(string, ('a, 'w) IMessageHandler) Map \<Rightarrow> string \<Rightarrow> string \<Rightarrow> 'a \<Rightarrow> 'w
       \<Rightarrow> 'w outcome" where
  "route handlers sid ev dat w =
     (case map_of handlers ev of
        None \<Rightarrow> (Some (Error (''No handler registered for event: '' @ ev)), w)
      | Some handler \<Rightarrow>
          (case handler sid ev dat w of
             (Some err, w') \<Rightarrow> (Some err, w')
           | (None, w') \<Rightarrow> (None, w')))"

section \<open>Invariants, observations and example values\<close>

text \<open>
  The member map of a room is well keyed when every entry sits under the socket id of its
  own \<open>RoomUser\<close> and no key occurs twice.
\<close>

definition keyed :: "(string, RoomUser) Map \<Rightarrow> bool" where
  "keyed al = (list_all (\<lambda>(k, u). socketId u = k) al \<and> distinct (map fst al))"

definition rooms_keyed :: "RoomManager \<Rightarrow> bool" where
  "rooms_keyed s = (\<forall>r room. map_of (rooms s) r = Some room \<longrightarrow> keyed (users room))"

definition rooms_nonempty :: "RoomManager \<Rightarrow> bool" where
  "rooms_nonempty s = (\<forall>r room. map_of (rooms s) r = Some room \<longrightarrow> users room \<noteq> [])"

text \<open>
  A bucket of reactions is in order when it is not empty, holds each user once and only
  holds records of its own emoji; the buckets of a message are in order when there is at
  least one, each under its own key.
\<close>

definition bucket_ok :: "string \<Rightarrow> Reaction list \<Rightarrow> bool" where
  "bucket_ok em er =
     (er \<noteq> [] \<and> distinct (map Reaction.userId er) \<and> list_all (\<lambda>r. Reaction.emoji r = em) er)"

definition message_ok :: "(string, Reaction list) Map \<Rightarrow> bool" where
  "message_ok mr =
     (mr \<noteq> [] \<and> distinct (map fst mr) \<and> list_all (\<lambda>(em, er). bucket_ok em er) mr)"

definition reactions_ok :: "ReactionManager \<Rightarrow> bool" where
  "reactions_ok s = (\<forall>mid mr. map_of (reactions s) mid = Some mr \<longrightarrow> message_ok mr)"

text \<open>The records that one user holds under one emoji of one message.\<close>

definition reactionsBy :: "string \<Rightarrow> string \<Rightarrow> string \<Rightarrow> ReactionManager \<Rightarrow> Reaction list" where
  "reactionsBy mid uid em s =
     filter (\<lambda>r. Reaction.userId r = uid)
       (case map_of (getReactions mid s) em of None \<Rightarrow> [] | Some er \<Rightarrow> er)"

text \<open>The records under one emoji of one message, in order; none if there is no bucket.\<close>

definition bucketOf :: "string \<Rightarrow> string \<Rightarrow> ReactionManager \<Rightarrow> Reaction list" where
  "bucketOf mid em s = (case map_of (getReactions mid s) em of None \<Rightarrow> [] | Some er \<Rightarrow> er)"

text \<open>
  What the disconnect of \<open>sid\<close> owes to room \<open>rid\<close>, read off the registry as it is before
  the disconnect: if \<open>sid\<close> is found among the users of the room, one \<^verbatim>\<open>room:user_left\<close>
  event for each of the other users, naming the user who left and listing the others.
\<close>

definition userLeftBroadcast :: "string \<Rightarrow> RoomManager \<Rightarrow> string \<Rightarrow> Emission list" where
  "userLeftBroadcast sid s rid =
     (case find (\<lambda>u. socketId u = sid) (getRoomUsers rid s) of
        None \<Rightarrow> []
      | Some lu \<Rightarrow>
          (let remaining = filter (\<lambda>u. socketId u \<noteq> sid) (getRoomUsers rid s)
           in map (\<lambda>u. (socketId u, ''room:user_left'',
                         RoomUserLeft rid (toUserRef lu) (map toUserRef remaining)))
                remaining))"

text \<open>Example values: two users, the thumbs-up emoji in UTF-8, a fresh application, two
  registered connections, a room with both users, and a reaction event on one message.\<close>

definition alice :: RoomUser where
  "alice = \<lparr>socketId = ''A'', userId = ''A'', username = ''alice'', joinedAt = 1\<rparr>"

definition bob :: RoomUser where
  "bob = \<lparr>socketId = ''B'', userId = ''B'', username = ''bob'', joinedAt = 2\<rparr>"

definition thumbsUp :: string where
  "thumbsUp = [CHR 0xF0, CHR 0x9F, CHR 0x91, CHR 0x8D]"

definition Application_after :: "RoomManager_call list \<Rightarrow> Application" where
  "Application_after calls =
     \<lparr>connectionManager = ConnectionManager_init, roomManager = RoomManager_run calls,
      reactionManager = ReactionManager_init, io = []\<rparr>"

definition connected :: "Application \<Rightarrow> Application" where
  "connected w =
     w\<lparr>connectionManager :=
         addConnection ''B'' ''B'' (addConnection ''A'' ''A'' (connectionManager w))\<rparr>"

definition chatroom :: Application where
  "chatroom = Application_after [JoinRoom ''r1'' alice 1, JoinRoom ''r1'' bob 2]"

definition thumbOnM1 :: MessageReaction where
  "thumbOnM1 = \<lparr>messageId = ''m1'', roomId = ''r1'', emoji = thumbsUp\<rparr>"

definition react :: "Date \<Rightarrow> string \<Rightarrow> Application \<Rightarrow> Application" where
  "react now sid w =
     snd (MessageReactionHandler_execute now sid ''message:reaction'' thumbOnM1 w)"

section \<open>Arrays and association lists\<close>

lemma findIndex_ge: "- 1 \<le> findIndex P xs"
  by (induction xs) (auto simp: Let_def)

lemma findIndex_none: "findIndex P xs = - 1 \<longleftrightarrow> \<not> list_ex P xs"
proof (induction xs)
  case Nil
  then show ?case by simp
next
  case (Cons x xs)
  have "findIndex P xs + 1 \<noteq> - 1" using findIndex_ge [of P xs] by arith
  then show ?case using Cons by (simp add: Let_def)
qed

lemma findIndex_last:
  "\<not> list_ex P xs \<Longrightarrow> P x \<Longrightarrow> findIndex P (xs @ [x]) = int (length xs)"
  by (induction xs) (auto simp: Let_def)

lemma splice1_length [simp]: "splice1 (int (length xs)) (xs @ [x]) = xs"
  by (simp add: splice1_def)

lemma splice1_findIndex_Cons:
  "findIndex P (x # xs) \<noteq> - 1 \<Longrightarrow>
     splice1 (findIndex P (x # xs)) (x # xs) =
       (if P x then xs else x # splice1 (findIndex P xs) xs)"
  using findIndex_ge [of P xs]
  by (auto simp: splice1_def Let_def nat_add_distrib)

lemma splice1_findIndex_filter:
  "distinct (map f xs) \<Longrightarrow> findIndex (\<lambda>r. f r = k) xs \<noteq> - 1 \<Longrightarrow>
     splice1 (findIndex (\<lambda>r. f r = k) xs) xs = filter (\<lambda>r. f r \<noteq> k) xs"
proof (induction xs)
  case Nil
  then show ?case by simp
next
  case (Cons x xs)
  show ?case
  proof (cases "f x = k")
    case True
    have "f x \<notin> f ` set xs" using Cons.prems(1) by simp
    then have "\<forall>y \<in> set xs. f y \<noteq> k" using True by blast
    then have "filter (\<lambda>r. f r \<noteq> k) xs = xs" by (simp add: filter_id_conv)
    then show ?thesis using True by (simp add: splice1_def)
  next
    case False
    then have "findIndex (\<lambda>r. f r = k) xs \<noteq> - 1" using Cons.prems(2) by (auto simp: Let_def)
    then show ?thesis
      using False Cons.prems Cons.IH by (simp add: splice1_findIndex_Cons del: findIndex.simps)
  qed
qed

lemma update_absent: "map_of al k = None \<Longrightarrow> AList.update k v al = al @ [(k, v)]"
  by (induction al) (auto split: if_splits)

lemma delete_absent: "map_of al k = None \<Longrightarrow> AList.delete k al = al"
  by (simp add: map_of_eq_None_iff)

lemma list_all_update_entry:
  "list_all P al \<Longrightarrow> P (k, v) \<Longrightarrow> list_all P (AList.update k v al)"
  by (induction al) auto

lemma list_all_delete_entry: "list_all P al \<Longrightarrow> list_all P (AList.delete k al)"
  by (simp add: AList.delete_eq list_all_iff)

lemma created_entry_defined:
  "map_of (if map_of m k = None then AList.update k v m else m) k \<noteq> None"
  by (simp add: update_conv')

section \<open>Sets as lists\<close>

lemma set_Set_add [simp]: "set (Set_add x xs) = insert x (set xs)"
  by (auto simp: Set_add_def)

lemma set_Set_delete [simp]: "set (Set_delete x xs) = set xs - {x}"
  by (auto simp: Set_delete_def)

section \<open>Properties of the ConnectionManager\<close>

lemma addConnection_set_defined:
  "map_of (userToSockets
             (if map_of (userToSockets s) uid = None
              then s\<lparr>userToSockets := AList.update uid [] (userToSockets s)\<rparr>
              else s)) uid \<noteq> None"
  by (simp add: update_conv')

lemma getUserBySocket_addConnection:
  "getUserBySocket c (addConnection sid uid s) =
     (if c = sid then Some uid else getUserBySocket c s)"
  by (simp add: getUserBySocket_def addConnection_def Let_def update_conv'
      split: option.splits)

lemma getConnectionsByUser_addConnection:
  "getConnectionsByUser u (addConnection sid uid s) =
     (if u = uid then Set_add sid (getConnectionsByUser u s) else getConnectionsByUser u s)"
  by (auto simp: getConnectionsByUser_def addConnection_def Let_def update_conv'
      split: option.splits)

text \<open>
  Claim C10. Binding a socket id first to user \<open>u1\<close> and then to a different user \<open>u2\<close>
  leaves \<open>getUserBySocket\<close> at \<open>u2\<close> and the socket in the connections of \<open>u2\<close>, while
  the connections of \<open>u1\<close> still list the socket: the two indexes disagree about it.
\<close>

theorem addConnection_rebind_stale:
  assumes "u1 \<noteq> u2"
  shows "getUserBySocket sid (addConnection sid u2 (addConnection sid u1 s)) = Some u2
       \<and> sid \<in> set (getConnectionsByUser u2 (addConnection sid u2 (addConnection sid u1 s)))
       \<and> sid \<in> set (getConnectionsByUser u1 (addConnection sid u2 (addConnection sid u1 s)))
       \<and> getUserBySocket sid (addConnection sid u2 (addConnection sid u1 s)) \<noteq> Some u1"
  using assms by (simp add: getUserBySocket_addConnection getConnectionsByUser_addConnection)

theorem addConnection_rebind_stale_witness:
  "''alice'' \<noteq> ''bob''
   \<and> getUserBySocket ''s1''
       (addConnection ''s1'' ''bob'' (addConnection ''s1'' ''alice'' ConnectionManager_init))
     = Some ''bob''
   \<and> getConnectionsByUser ''alice''
       (addConnection ''s1'' ''bob'' (addConnection ''s1'' ''alice'' ConnectionManager_init))
     = [''s1'']
   \<and> getConnectionsByUser ''bob''
       (addConnection ''s1'' ''bob'' (addConnection ''s1'' ''alice'' ConnectionManager_init))
     = [''s1'']"
  using addConnection_rebind_stale [of "''alice''" "''bob''" "''s1''" ConnectionManager_init]
  by (simp add: getUserBySocket_def getConnectionsByUser_def addConnection_def
      ConnectionManager_init_def Set_add_def Let_def)

lemma getUserBySocket_removeConnection:
  "getUserBySocket sid (removeConnection sid s) = None"
  by (simp add: getUserBySocket_def removeConnection_def Let_def delete_conv')

section \<open>Properties of the RoomManager\<close>

subsection \<open>What each call does to the two tables\<close>

lemma rooms_createRoom:
  "map_of (rooms (createRoom rid now s)) r =
     (if r = rid \<and> map_of (rooms s) rid = None
      then Some \<lparr>id' = rid, users = [], createdAt = now\<rparr>
      else map_of (rooms s) r)"
  by (simp add: createRoom_def update_conv')

lemma socketToRooms_createRoom [simp]:
  "socketToRooms (createRoom rid now s) = socketToRooms s"
  by (simp add: createRoom_def)

lemma joinRoom_room_defined:
  "map_of (rooms (if map_of (rooms s) rid = None then createRoom rid now s else s)) rid \<noteq> None"
  by (simp add: rooms_createRoom)

lemma joinRoom_set_defined:
  "map_of (socketToRooms
             (if map_of (socketToRooms s) sid = None
              then s\<lparr>socketToRooms := AList.update sid [] (socketToRooms s)\<rparr>
              else s)) sid \<noteq> None"
  by (simp add: update_conv')

lemma rooms_joinRoom:
  "map_of (rooms (joinRoom rid u now s)) r =
     (if r = rid
      then Some (case map_of (rooms s) rid of
                   None \<Rightarrow> \<lparr>id' = rid, users = [(socketId u, u)], createdAt = now\<rparr>
                 | Some room \<Rightarrow> room\<lparr>users := AList.update (socketId u) u (users room)\<rparr>)
      else map_of (rooms s) r)"
  by (simp add: joinRoom_def createRoom_def Let_def update_conv' split: option.splits)

lemma socketToRooms_joinRoom:
  "map_of (socketToRooms (joinRoom rid u now s)) c =
     (if c = socketId u
      then Some (Set_add rid (case map_of (socketToRooms s) c of None \<Rightarrow> [] | Some rs \<Rightarrow> rs))
      else map_of (socketToRooms s) c)"
  by (simp add: joinRoom_def createRoom_def Let_def update_conv' split: option.splits)

lemma rooms_leaveRoom:
  "map_of (rooms (leaveRoom rid sid s)) r =
     (if r = rid
      then (case map_of (rooms s) rid of
              None \<Rightarrow> None
            | Some room \<Rightarrow>
                if AList.delete sid (users room) = [] then None
                else Some (room\<lparr>users := AList.delete sid (users room)\<rparr>))
      else map_of (rooms s) r)"
  by (simp add: leaveRoom_def Let_def update_conv' delete_conv' split: option.splits)

lemma socketToRooms_leaveRoom:
  "map_of (socketToRooms (leaveRoom rid sid s)) c =
     (if c = sid then map_option (Set_delete rid) (map_of (socketToRooms s) c)
      else map_of (socketToRooms s) c)"
  by (simp add: leaveRoom_def Let_def update_conv' delete_conv' split: option.splits)

lemma map_of_delete_None_iff:
  "map_of (AList.delete k al) c = None \<longleftrightarrow> c = k \<or> map_of al c = None"
  by (simp add: delete_conv')

lemma isUserInRoom_createRoom [simp]:
  "isUserInRoom r c (createRoom rid now s) = isUserInRoom r c s"
  by (simp add: isUserInRoom_def rooms_createRoom)

lemma isUserInRoom_joinRoom:
  "isUserInRoom r c (joinRoom rid u now s) \<longleftrightarrow> (r = rid \<and> c = socketId u) \<or> isUserInRoom r c s"
  by (auto simp: isUserInRoom_def rooms_joinRoom update_conv' split: option.splits)

lemma delete_Nil_map_of:
  "AList.delete k al = [] \<Longrightarrow> c \<noteq> k \<Longrightarrow> map_of al c = None"
  using map_of_delete [of c k al] by simp

lemma isUserInRoom_leaveRoom:
  "isUserInRoom r c (leaveRoom rid sid s) \<longleftrightarrow> isUserInRoom r c s \<and> \<not> (r = rid \<and> c = sid)"
  by (auto simp: isUserInRoom_def rooms_leaveRoom delete_conv' delete_Nil_map_of
      split: option.splits)

lemma getUserRooms_createRoom [simp]:
  "getUserRooms c (createRoom rid now s) = getUserRooms c s"
  by (simp add: getUserRooms_def)

lemma getUserRooms_joinRoom:
  "getUserRooms c (joinRoom rid u now s) =
     (if c = socketId u then Set_add rid (getUserRooms c s) else getUserRooms c s)"
  by (simp add: getUserRooms_def socketToRooms_joinRoom)

lemma getUserRooms_leaveRoom:
  "getUserRooms c (leaveRoom rid sid s) =
     (if c = sid then Set_delete rid (getUserRooms c s) else getUserRooms c s)"
  by (auto simp: getUserRooms_def socketToRooms_leaveRoom Set_delete_def split: option.splits)

lemma isUserInRoom_leave_fold:
  "isUserInRoom r c (foldl (\<lambda>st rid. leaveRoom rid sid st) s rs) \<longleftrightarrow>
     isUserInRoom r c s \<and> \<not> (c = sid \<and> r \<in> set rs)"
  by (induction rs arbitrary: s) (auto simp: isUserInRoom_leaveRoom)

lemma getUserRooms_leave_fold:
  "getUserRooms c (foldl (\<lambda>st rid. leaveRoom rid sid st) s rs) =
     (if c = sid then filter (\<lambda>r. r \<notin> set rs) (getUserRooms c s) else getUserRooms c s)"
proof (induction rs arbitrary: s)
  case Nil
  then show ?case by simp
next
  case (Cons a rs)
  then show ?case
    by (auto simp: getUserRooms_leaveRoom Set_delete_def removeAll_filter_not_eq
        intro!: filter_cong)
qed

lemma rooms_delete_socketToRooms [simp]:
  "isUserInRoom r c (s\<lparr>socketToRooms := x\<rparr>) = isUserInRoom r c s"
  by (simp add: isUserInRoom_def)

lemma isUserInRoom_leaveAllRooms:
  "isUserInRoom r c (leaveAllRooms sid s) \<longleftrightarrow>
     isUserInRoom r c s \<and> \<not> (c = sid \<and> r \<in> set (getUserRooms sid s))"
  by (auto simp: leaveAllRooms_def isUserInRoom_leave_fold getUserRooms_def Let_def split: option.splits)

lemma getUserRooms_leaveAllRooms:
  "getUserRooms c (leaveAllRooms sid s) = (if c = sid then [] else getUserRooms c s)"
proof (cases "map_of (socketToRooms s) sid")
  case None
  then show ?thesis by (simp add: leaveAllRooms_def getUserRooms_def)
next
  case (Some rs)
  have "getUserRooms c (leaveAllRooms sid s) =
          (if c = sid then [] else getUserRooms c (foldl (\<lambda>st rid. leaveRoom rid sid st) s rs))"
    using Some by (simp add: leaveAllRooms_def getUserRooms_def Let_def delete_conv')
  then show ?thesis by (simp add: getUserRooms_leave_fold)
qed

subsection \<open>Member maps stay keyed by socket id\<close>

lemma keyed_Nil [simp]: "keyed []"
  by (simp add: keyed_def)

lemma list_all_update:
  "list_all (\<lambda>(k, u). socketId u = k) al \<Longrightarrow>
   list_all (\<lambda>(k, u). socketId u = k) (AList.update (socketId u) u al)"
  by (induction al) auto

lemma keyed_update: "keyed al \<Longrightarrow> keyed (AList.update (socketId u) u al)"
  by (simp add: keyed_def list_all_update distinct_update)

lemma keyed_delete: "keyed al \<Longrightarrow> keyed (AList.delete k al)"
  by (auto simp: keyed_def AList.delete_eq list_all_iff distinct_map_filter)

lemma keyed_socketIds: "keyed al \<Longrightarrow> map socketId (map snd al) = map fst al"
  by (induction al) (auto simp: keyed_def)

lemma keyed_find: "keyed al \<Longrightarrow> find (\<lambda>u. socketId u = c) (map snd al) = map_of al c"
  by (induction al) (auto simp: keyed_def)

lemma keyed_delete_values:
  "keyed al \<Longrightarrow> map snd (AList.delete c al) = filter (\<lambda>u. socketId u \<noteq> c) (map snd al)"
  by (induction al) (auto simp: keyed_def)

lemma rooms_keyedD: "rooms_keyed s \<Longrightarrow> map_of (rooms s) r = Some room \<Longrightarrow> keyed (users room)"
  by (simp add: rooms_keyed_def)

lemma rooms_keyed_createRoom: "rooms_keyed s \<Longrightarrow> rooms_keyed (createRoom rid now s)"
  by (auto simp: rooms_keyed_def rooms_createRoom split: if_splits)

lemma rooms_keyed_joinRoom: "rooms_keyed s \<Longrightarrow> rooms_keyed (joinRoom rid u now s)"
  unfolding rooms_keyed_def
proof (intro allI impI)
  fix r room
  assume inv: "\<forall>r room. map_of (rooms s) r = Some room \<longrightarrow> keyed (users room)"
    and look: "map_of (rooms (joinRoom rid u now s)) r = Some room"
  show "keyed (users room)"
  proof (cases "r = rid")
    case False
    then show ?thesis using inv look by (simp add: rooms_joinRoom)
  next
    case True
    show ?thesis
    proof (cases "map_of (rooms s) rid")
      case None
      then have "users room = [(socketId u, u)]"
        using look True by (auto simp: rooms_joinRoom)
      then show ?thesis by (simp add: keyed_def)
    next
      case (Some old)
      then have "users room = AList.update (socketId u) u (users old)"
        using look True by (auto simp: rooms_joinRoom)
      moreover have "keyed (users old)" using inv Some by simp
      ultimately show ?thesis by (simp add: keyed_update)
    qed
  qed
qed

lemma rooms_keyed_leaveRoom: "rooms_keyed s \<Longrightarrow> rooms_keyed (leaveRoom rid sid s)"
  by (auto simp: rooms_keyed_def rooms_leaveRoom keyed_delete split: if_splits option.splits)

lemma rooms_keyed_leave_fold:
  "rooms_keyed s \<Longrightarrow> rooms_keyed (foldl (\<lambda>st rid. leaveRoom rid sid st) s rs)"
  by (induction rs arbitrary: s) (simp_all add: rooms_keyed_leaveRoom)

lemma rooms_leaveAllRooms:
  "rooms (leaveAllRooms sid s) =
     rooms (foldl (\<lambda>st rid. leaveRoom rid sid st) s (getUserRooms sid s))"
  by (simp add: leaveAllRooms_def getUserRooms_def Let_def split: option.splits)

lemma rooms_keyed_leaveAllRooms: "rooms_keyed s \<Longrightarrow> rooms_keyed (leaveAllRooms sid s)"
  using rooms_keyed_leave_fold [of s sid "getUserRooms sid s"]
  by (simp add: rooms_keyed_def rooms_leaveAllRooms)

lemma rooms_keyed_do: "rooms_keyed s \<Longrightarrow> rooms_keyed (RoomManager_do s call)"
  by (cases call)
    (simp_all add: rooms_keyed_createRoom rooms_keyed_joinRoom rooms_keyed_leaveRoom
      rooms_keyed_leaveAllRooms)

lemma rooms_keyed_run: "rooms_keyed (RoomManager_run calls)"
proof (induction calls rule: rev_induct)
  case Nil
  then show ?case by (simp add: RoomManager_run_def RoomManager_init_def rooms_keyed_def)
next
  case (snoc call calls)
  then show ?case by (simp add: RoomManager_run_def rooms_keyed_do)
qed

subsection \<open>The two tables agree\<close>

text \<open>
  After any sequence of calls a socket is in the member map of a room exactly when the room
  is in the room set of the socket.
\<close>

lemma consistent_RoomManager_run:
  "isUserInRoom r c (RoomManager_run calls) \<longleftrightarrow> r \<in> set (getUserRooms c (RoomManager_run calls))"
proof (induction calls arbitrary: r c rule: rev_induct)
  case Nil
  then show ?case
    by (simp add: RoomManager_run_def RoomManager_init_def isUserInRoom_def getUserRooms_def)
next
  case (snoc call calls)
  have run: "RoomManager_run (calls @ [call]) = RoomManager_do (RoomManager_run calls) call"
    by (simp add: RoomManager_run_def)
  show ?case
    unfolding run using snoc
    by (cases call)
      (auto simp: isUserInRoom_joinRoom getUserRooms_joinRoom isUserInRoom_leaveRoom
        getUserRooms_leaveRoom isUserInRoom_leaveAllRooms getUserRooms_leaveAllRooms)
qed

lemma distinct_getUserRooms_run:
  "distinct (getUserRooms c (RoomManager_run calls))"
proof (induction calls arbitrary: c rule: rev_induct)
  case Nil
  then show ?case
    by (simp add: RoomManager_run_def RoomManager_init_def getUserRooms_def)
next
  case (snoc call calls)
  have run: "RoomManager_run (calls @ [call]) = RoomManager_do (RoomManager_run calls) call"
    by (simp add: RoomManager_run_def)
  show ?case
    unfolding run using snoc
    by (cases call)
      (auto simp: getUserRooms_joinRoom getUserRooms_leaveRoom getUserRooms_leaveAllRooms
        Set_add_def Set_delete_def distinct_removeAll)
qed

subsection \<open>Room lifecycle\<close>

lemma rooms_nonempty_joinRoom: "rooms_nonempty s \<Longrightarrow> rooms_nonempty (joinRoom rid u now s)"
  by (auto simp: rooms_nonempty_def rooms_joinRoom split: if_splits option.splits)

lemma rooms_nonempty_leaveRoom: "rooms_nonempty s \<Longrightarrow> rooms_nonempty (leaveRoom rid sid s)"
  by (auto simp: rooms_nonempty_def rooms_leaveRoom split: if_splits option.splits)

lemma rooms_nonempty_leave_fold:
  "rooms_nonempty s \<Longrightarrow> rooms_nonempty (foldl (\<lambda>st rid. leaveRoom rid sid st) s rs)"
  by (induction rs arbitrary: s) (simp_all add: rooms_nonempty_leaveRoom)

lemma rooms_nonempty_leaveAllRooms:
  "rooms_nonempty s \<Longrightarrow> rooms_nonempty (leaveAllRooms sid s)"
  using rooms_nonempty_leave_fold [of s sid "getUserRooms sid s"]
  by (simp add: rooms_nonempty_def rooms_leaveAllRooms)

lemma rooms_nonempty_run:
  "list_all (\<lambda>call. \<not> is_CreateRoom call) calls \<Longrightarrow> rooms_nonempty (RoomManager_run calls)"
proof (induction calls rule: rev_induct)
  case Nil
  then show ?case by (simp add: RoomManager_run_def RoomManager_init_def rooms_nonempty_def)
next
  case (snoc call calls)
  then have "rooms_nonempty (RoomManager_run calls)" by simp
  moreover have "\<not> is_CreateRoom call" using snoc.prems by simp
  ultimately have "rooms_nonempty (RoomManager_do (RoomManager_run calls) call)"
    by (cases call)
      (simp_all add: rooms_nonempty_joinRoom rooms_nonempty_leaveRoom
        rooms_nonempty_leaveAllRooms)
  then show ?case by (simp add: RoomManager_run_def)
qed

text \<open>
  Claim C1, as amended. After every sequence of \<open>joinRoom\<close>, \<open>leaveRoom\<close> and
  \<open>leaveAllRooms\<close> calls on an empty registry, in which \<open>createRoom\<close> is only called
  from within \<open>joinRoom\<close>, a room is in the room table if and only if its member count is
  positive: \<open>roomExists\<close> holds exactly when \<open>getRoomUsers\<close> is non-empty.
\<close>

theorem room_present_iff_members:
  assumes "list_all (\<lambda>call. \<not> is_CreateRoom call) calls"
  shows "roomExists r (RoomManager_run calls) \<longleftrightarrow> 0 < length (getRoomUsers r (RoomManager_run calls))"
  using rooms_nonempty_run [OF assms]
  by (auto simp: rooms_nonempty_def roomExists_def getRoomUsers_def split: option.splits)

theorem room_present_iff_members_witness:
  "list_all (\<lambda>call. \<not> is_CreateRoom call)
     [JoinRoom ''r1'' alice 1, JoinRoom ''r2'' alice 2, LeaveRoom ''r2'' ''A'']
   \<and> roomExists ''r1'' (RoomManager_run [JoinRoom ''r1'' alice 1, JoinRoom ''r2'' alice 2, LeaveRoom ''r2'' ''A''])
   \<and> getRoomUsers ''r1'' (RoomManager_run [JoinRoom ''r1'' alice 1, JoinRoom ''r2'' alice 2, LeaveRoom ''r2'' ''A'']) = [alice]
   \<and> \<not> roomExists ''r2'' (RoomManager_run [JoinRoom ''r1'' alice 1, JoinRoom ''r2'' alice 2, LeaveRoom ''r2'' ''A''])
   \<and> getRoomUsers ''r2'' (RoomManager_run [JoinRoom ''r1'' alice 1, JoinRoom ''r2'' alice 2, LeaveRoom ''r2'' ''A'']) = []"
  using room_present_iff_members [of "[JoinRoom ''r1'' alice 1, JoinRoom ''r2'' alice 2, LeaveRoom ''r2'' ''A'']" "''r1''"]
    room_present_iff_members [of "[JoinRoom ''r1'' alice 1, JoinRoom ''r2'' alice 2, LeaveRoom ''r2'' ''A'']" "''r2''"]
  by (simp add: RoomManager_run_def RoomManager_init_def joinRoom_def createRoom_def leaveRoom_def
      roomExists_def getRoomUsers_def Set_add_def Set_delete_def Let_def alice_def)

text \<open>
  Claim C1 as stated also covers \<open>createRoom\<close> called on its own, which puts a room with
  no member into the table.
\<close>

theorem createRoom_empty_room_counterexample:
  "\<not> (roomExists ''r1'' (RoomManager_run [CreateRoom ''r1'' 0])
        \<longleftrightarrow> 0 < length (getRoomUsers ''r1'' (RoomManager_run [CreateRoom ''r1'' 0])))"
  by (simp add: RoomManager_run_def RoomManager_init_def createRoom_def roomExists_def getRoomUsers_def)

subsection \<open>Looking a member up\<close>

lemma keyed_map_of: "keyed al \<Longrightarrow> map_of al k = Some u \<Longrightarrow> socketId u = k"
  by (auto simp: keyed_def list_all_iff dest!: map_of_SomeD)

lemma socketIds_getRoomUsers:
  assumes "rooms_keyed s"
  shows "map socketId (getRoomUsers r s) =
     (case map_of (rooms s) r of None \<Rightarrow> [] | Some room \<Rightarrow> map fst (users room))"
proof (cases "map_of (rooms s) r")
  case None
  then show ?thesis by (simp add: getRoomUsers_def)
next
  case (Some room)
  then have "keyed (users room)" using assms by (rule rooms_keyedD [rotated])
  then have ids: "map socketId (map snd (users room)) = map fst (users room)"
    by (rule keyed_socketIds)
  have "getRoomUsers r s = map snd (users room)"
    using Some by (simp add: getRoomUsers_def)
  then show ?thesis by (simp only: ids Some option.case)
qed

lemma member_iff_isUserInRoom:
  assumes "rooms_keyed s"
  shows "sid \<in> set (map socketId (getRoomUsers r s)) \<longleftrightarrow> isUserInRoom r sid s"
proof (cases "map_of (rooms s) r")
  case None
  then show ?thesis by (simp add: getRoomUsers_def isUserInRoom_def)
next
  case (Some room)
  have "map_of (users room) sid \<noteq> None \<longleftrightarrow> sid \<in> fst ` set (users room)"
    by (simp add: map_of_eq_None_iff)
  then show ?thesis
    using Some socketIds_getRoomUsers [OF assms, of r] by (simp add: isUserInRoom_def)
qed

lemma find_getRoomUsers:
  assumes "rooms_keyed s"
  shows "find (\<lambda>u. socketId u = sid) (getRoomUsers r s) =
     (case map_of (rooms s) r of None \<Rightarrow> None | Some room \<Rightarrow> map_of (users room) sid)"
proof (cases "map_of (rooms s) r")
  case None
  then show ?thesis by (simp add: getRoomUsers_def)
next
  case (Some room)
  then have "keyed (users room)" using assms by (rule rooms_keyedD [rotated])
  then show ?thesis using Some by (simp add: getRoomUsers_def keyed_find)
qed

lemma find_isUserInRoom:
  assumes "rooms_keyed s" and "isUserInRoom r sid s"
  shows "\<exists>u. find (\<lambda>u. socketId u = sid) (getRoomUsers r s) = Some u \<and> socketId u = sid"
proof -
  obtain room where room: "map_of (rooms s) r = Some room"
    using assms(2) by (auto simp: isUserInRoom_def split: option.splits)
  then obtain u where u: "map_of (users room) sid = Some u"
    using assms(2) by (auto simp: isUserInRoom_def)
  have "keyed (users room)" using room assms(1) by (rule rooms_keyedD [rotated])
  then have "socketId u = sid" using u by (rule keyed_map_of)
  then show ?thesis using room u by (simp add: find_getRoomUsers [OF assms(1)])
qed

text \<open>
  Claim C5. After any sequence of calls, \<open>leaveAllRooms sid\<close> leaves \<open>getUserRooms sid\<close>
  empty and \<open>sid\<close> out of the member map of every room: \<open>isUserInRoom\<close> is false for
  every room id and no user listed by \<open>getRoomUsers\<close> carries the socket id.
\<close>

theorem leaveAllRooms_clears:
  "getUserRooms sid (leaveAllRooms sid (RoomManager_run calls)) = []
   \<and> \<not> isUserInRoom r sid (leaveAllRooms sid (RoomManager_run calls))
   \<and> sid \<notin> set (map socketId (getRoomUsers r (leaveAllRooms sid (RoomManager_run calls))))"
proof -
  have absent: "\<not> isUserInRoom r sid (leaveAllRooms sid (RoomManager_run calls))"
    by (simp add: isUserInRoom_leaveAllRooms consistent_RoomManager_run)
  have "rooms_keyed (leaveAllRooms sid (RoomManager_run calls))"
    by (simp add: rooms_keyed_leaveAllRooms rooms_keyed_run)
  then have "sid \<notin> set (map socketId (getRoomUsers r (leaveAllRooms sid (RoomManager_run calls))))"
    using absent member_iff_isUserInRoom by blast
  then show ?thesis
    using absent by (simp add: getUserRooms_leaveAllRooms)
qed

lemma distinct_socketIds_getRoomUsers:
  assumes "rooms_keyed s"
  shows "distinct (map socketId (getRoomUsers r s))"
proof (cases "map_of (rooms s) r")
  case None
  then show ?thesis by (simp add: getRoomUsers_def)
next
  case (Some room)
  then have "keyed (users room)" using assms by (rule rooms_keyedD [rotated])
  then have "distinct (map fst (users room))" by (simp add: keyed_def)
  then show ?thesis
    using Some socketIds_getRoomUsers [OF assms, of r] by simp
qed

lemma getRoomUsers_leaveRoom_other:
  "r \<noteq> rid \<Longrightarrow> getRoomUsers r (leaveRoom rid sid s) = getRoomUsers r s"
  by (simp add: getRoomUsers_def rooms_leaveRoom)

lemma getRoomUsers_leaveRoom_same:
  assumes "rooms_keyed s"
  shows "getRoomUsers rid (leaveRoom rid sid s) = filter (\<lambda>u. socketId u \<noteq> sid) (getRoomUsers rid s)"
proof (cases "map_of (rooms s) rid")
  case None
  then show ?thesis by (simp add: getRoomUsers_def rooms_leaveRoom)
next
  case (Some room)
  then have "keyed (users room)" using assms by (rule rooms_keyedD [rotated])
  then have vals: "map snd (AList.delete sid (users room)) =
      filter (\<lambda>u. socketId u \<noteq> sid) (map snd (users room))"
    by (rule keyed_delete_values)
  show ?thesis
  proof (cases "AList.delete sid (users room) = []")
    case True
    then show ?thesis using Some vals by (simp add: getRoomUsers_def rooms_leaveRoom)
  next
    case False
    then show ?thesis using Some vals by (simp add: getRoomUsers_def rooms_leaveRoom)
  qed
qed

text \<open>
  The definitions that evaluate a concrete sequence of calls.
\<close>

lemmas RoomManager_eval =
  RoomManager_run_def RoomManager_init_def joinRoom_def createRoom_def leaveRoom_def
  leaveAllRooms_def getRoomUsers_def getUserRooms_def isUserInRoom_def roomExists_def
  Set_add_def Set_delete_def Let_def alice_def bob_def

section \<open>Properties of the ReactionManager\<close>

subsection \<open>The two calls in closed form\<close>

lemma addReaction_eq:
  "addReaction mid rx s =
     (let mr = getReactions mid s;
          er = (case map_of mr (Reaction.emoji rx) of None \<Rightarrow> [] | Some er \<Rightarrow> er);
          er' = (if list_ex (\<lambda>r. Reaction.userId r = Reaction.userId rx) er then er
                 else er @ [rx])
      in s\<lparr>reactions := AList.update mid (AList.update (Reaction.emoji rx) er' mr) (reactions s)\<rparr>)"
  by (simp add: addReaction_def getReactions_def Let_def update_conv' findIndex_none
      split: option.splits)

lemma removeReaction_eq:
  "removeReaction mid uid em s =
     (case map_of (reactions s) mid of
        None \<Rightarrow> s
      | Some mr \<Rightarrow>
          (case map_of mr em of
             None \<Rightarrow> s
           | Some er \<Rightarrow>
               if list_ex (\<lambda>r. Reaction.userId r = uid) er then
                 (let er' = splice1 (findIndex (\<lambda>r. Reaction.userId r = uid) er) er;
                      mr2 = (if er' = [] then AList.delete em mr else AList.update em er' mr)
                  in s\<lparr>reactions :=
                         (if mr2 = [] then AList.delete mid (reactions s)
                          else AList.update mid mr2 (reactions s))\<rparr>)
               else s))"
  by (simp add: removeReaction_def Let_def findIndex_none delete_update_same
      split: option.splits)

subsection \<open>Buckets stay in order\<close>

lemma message_ok_bucket:
  "message_ok mr \<Longrightarrow> map_of mr em = Some er \<Longrightarrow> bucket_ok em er"
  by (auto simp: message_ok_def list_all_iff dest!: map_of_SomeD)

lemma message_ok_update:
  "mr = [] \<or> message_ok mr \<Longrightarrow> bucket_ok em er \<Longrightarrow> message_ok (AList.update em er mr)"
  by (auto simp: message_ok_def distinct_update list_all_update_entry)

lemma message_ok_delete:
  "message_ok mr \<Longrightarrow> AList.delete em mr \<noteq> [] \<Longrightarrow> message_ok (AList.delete em mr)"
  by (simp add: message_ok_def distinct_delete list_all_delete_entry)

lemma bucket_ok_push:
  "er = [] \<or> bucket_ok (Reaction.emoji rx) er \<Longrightarrow>
   \<not> list_ex (\<lambda>r. Reaction.userId r = Reaction.userId rx) er \<Longrightarrow>
   bucket_ok (Reaction.emoji rx) (er @ [rx])"
  by (auto simp: bucket_ok_def list_ex_iff)

lemma bucket_ok_splice:
  assumes "bucket_ok em er" and "list_ex (\<lambda>r. Reaction.userId r = uid) er"
    and "splice1 (findIndex (\<lambda>r. Reaction.userId r = uid) er) er \<noteq> []"
  shows "bucket_ok em (splice1 (findIndex (\<lambda>r. Reaction.userId r = uid) er) er)"
proof -
  have d: "distinct (map Reaction.userId er)" using assms(1) by (simp add: bucket_ok_def)
  have "findIndex (\<lambda>r. Reaction.userId r = uid) er \<noteq> - 1"
    using assms(2) by (simp add: findIndex_none)
  from splice1_findIndex_filter [OF d this] show ?thesis
    using assms(1,3) by (auto simp: bucket_ok_def distinct_map_filter list_all_iff)
qed

lemma reactions_ok_addReaction:
  assumes "reactions_ok s"
  shows "reactions_ok (addReaction mid rx s)"
  unfolding reactions_ok_def
proof (intro allI impI)
  fix m mr'
  assume look: "map_of (reactions (addReaction mid rx s)) m = Some mr'"
  define mr where "mr = getReactions mid s"
  define er where "er = (case map_of mr (Reaction.emoji rx) of None \<Rightarrow> [] | Some er \<Rightarrow> er)"
  define er' where "er' = (if list_ex (\<lambda>r. Reaction.userId r = Reaction.userId rx) er then er
                 else er @ [rx])"
  have new: "reactions (addReaction mid rx s) =
      AList.update mid (AList.update (Reaction.emoji rx) er' mr) (reactions s)"
    by (simp add: addReaction_eq Let_def mr_def er_def er'_def)
  have mr_ok: "mr = [] \<or> message_ok mr"
    using assms by (auto simp: mr_def getReactions_def reactions_ok_def split: option.splits)
  have er_ok: "er = [] \<or> bucket_ok (Reaction.emoji rx) er"
    using mr_ok by (auto simp: er_def message_ok_bucket split: option.splits)
  have "bucket_ok (Reaction.emoji rx) er'"
  proof (cases "list_ex (\<lambda>r. Reaction.userId r = Reaction.userId rx) er")
    case True
    then have "er \<noteq> []" by auto
    then show ?thesis using er_ok True by (simp add: er'_def)
  next
    case False
    then show ?thesis using er_ok by (simp add: er'_def bucket_ok_push)
  qed
  with mr_ok have "message_ok (AList.update (Reaction.emoji rx) er' mr)"
    by (rule message_ok_update)
  then show "message_ok mr'"
    using look assms by (auto simp: new update_conv' reactions_ok_def split: if_splits)
qed

lemma reactions_ok_removeReaction:
  assumes "reactions_ok s"
  shows "reactions_ok (removeReaction mid uid em s)"
proof (cases "map_of (reactions s) mid")
  case None
  then show ?thesis using assms by (simp add: removeReaction_eq)
next
  case (Some mr)
  then have mr_ok: "message_ok mr" using assms by (simp add: reactions_ok_def)
  show ?thesis
  proof (cases "map_of mr em")
    case None
    then show ?thesis using Some assms by (simp add: removeReaction_eq)
  next
    case er: (Some er)
    then have er_ok: "bucket_ok em er" using mr_ok by (simp add: message_ok_bucket)
    show ?thesis
    proof (cases "list_ex (\<lambda>r. Reaction.userId r = uid) er")
      case False
      then show ?thesis using Some er assms by (simp add: removeReaction_eq)
    next
      case True
      define er' where "er' = splice1 (findIndex (\<lambda>r. Reaction.userId r = uid) er) er"
      define mr2 where "mr2 = (if er' = [] then AList.delete em mr else AList.update em er' mr)"
      have new: "reactions (removeReaction mid uid em s) =
          (if mr2 = [] then AList.delete mid (reactions s)
           else AList.update mid mr2 (reactions s))"
        using Some er True by (simp add: removeReaction_eq Let_def er'_def mr2_def)
      have "mr2 \<noteq> [] \<Longrightarrow> message_ok mr2"
        using mr_ok er_ok True bucket_ok_splice [of em er uid]
        by (auto simp: mr2_def er'_def message_ok_delete message_ok_update split: if_splits)
      then show ?thesis
        using assms
        by (auto simp: reactions_ok_def new update_conv' delete_conv' split: if_splits)
    qed
  qed
qed

lemma reactions_ok_run: "reactions_ok (ReactionManager_run calls)"
proof (induction calls rule: rev_induct)
  case Nil
  then show ?case by (simp add: ReactionManager_run_def ReactionManager_init_def reactions_ok_def)
next
  case (snoc call calls)
  then show ?case
    by (cases call)
      (simp_all add: ReactionManager_run_def reactions_ok_addReaction reactions_ok_removeReaction)
qed

subsection \<open>No duplicate reaction\<close>

lemma bucket_pairs_distinct:
  "bucket_ok em er \<Longrightarrow> distinct (map (\<lambda>r. (Reaction.emoji r, Reaction.userId r)) er)"
  by (auto simp: bucket_ok_def distinct_map inj_on_def)

lemma message_pairs_distinct:
  "distinct (map fst mr) \<Longrightarrow> list_all (\<lambda>(em, er). bucket_ok em er) mr \<Longrightarrow>
     distinct (map (\<lambda>r. (Reaction.emoji r, Reaction.userId r)) (concat (map snd mr)))"
proof (induction mr)
  case Nil
  then show ?case by simp
next
  case (Cons p mr)
  obtain em er where p: "p = (em, er)" by (cases p)
  have here: "bucket_ok em er" using Cons.prems(2) p by simp
  have "Reaction.emoji r \<noteq> Reaction.emoji r'"
    if "r \<in> set er" and "r' \<in> set (concat (map snd mr))" for r r'
  proof -
    from that(2) obtain em' er' where e: "(em', er') \<in> set mr" "r' \<in> set er'" by auto
    then have "bucket_ok em' er'" using Cons.prems(2) by (auto simp: list_all_iff)
    then have "Reaction.emoji r' = em'" using e(2) by (auto simp: bucket_ok_def list_all_iff)
    moreover have "Reaction.emoji r = em" using here that(1) by (auto simp: bucket_ok_def list_all_iff)
    moreover have "em' \<noteq> em" using e(1) Cons.prems(1) p by force
    ultimately show ?thesis by simp
  qed
  then have "set (map (\<lambda>r. (Reaction.emoji r, Reaction.userId r)) er) \<inter>
             set (map (\<lambda>r. (Reaction.emoji r, Reaction.userId r)) (concat (map snd mr))) = {}"
    by fastforce
  then show ?case
    using Cons bucket_pairs_distinct [OF here] by (simp add: p)
qed

text \<open>
  Claim C3. After every sequence of \<open>addReaction\<close> and \<open>removeReaction\<close> calls, the
  records that \<open>getReactions\<close> returns for a message, taken over all its emoji buckets,
  never hold the same pair of emoji and user id twice.
\<close>

theorem reactions_unique:
  "distinct (map (\<lambda>r. (Reaction.emoji r, Reaction.userId r))
               (concat (map snd (getReactions mid (ReactionManager_run calls)))))"
proof (cases "map_of (reactions (ReactionManager_run calls)) mid")
  case None
  then show ?thesis by (simp add: getReactions_def)
next
  case (Some mr)
  then have "message_ok mr"
    using reactions_ok_run [of calls] by (simp add: reactions_ok_def)
  then show ?thesis
    using Some message_pairs_distinct [of mr] by (simp add: getReactions_def message_ok_def)
qed

subsection \<open>Adding and removing one reaction\<close>

lemma hasUserReacted_addReaction:
  "hasUserReacted m u e (addReaction mid rx s) \<longleftrightarrow>
     (m = mid \<and> e = Reaction.emoji rx \<and> u = Reaction.userId rx) \<or> hasUserReacted m u e s"
  by (auto simp: addReaction_eq Let_def hasUserReacted_def getReactions_def update_conv'
      list_ex_iff split: option.splits if_splits)

lemma hasUserReacted_removeReaction:
  assumes "reactions_ok s"
  shows "hasUserReacted m u e (removeReaction mid uid em s) \<longleftrightarrow>
     hasUserReacted m u e s \<and> \<not> (m = mid \<and> e = em \<and> u = uid)"
proof (cases "map_of (reactions s) mid")
  case None
  then show ?thesis by (auto simp: removeReaction_eq hasUserReacted_def)
next
  case (Some mr)
  then have mr_ok: "message_ok mr" using assms by (simp add: reactions_ok_def)
  show ?thesis
  proof (cases "map_of mr em")
    case None
    then show ?thesis using Some by (auto simp: removeReaction_eq hasUserReacted_def)
  next
    case er: (Some er)
    then have er_ok: "bucket_ok em er" using mr_ok by (simp add: message_ok_bucket)
    show ?thesis
    proof (cases "list_ex (\<lambda>r. Reaction.userId r = uid) er")
      case False
      then show ?thesis using Some er by (auto simp: removeReaction_eq hasUserReacted_def)
    next
      case True
      have d: "distinct (map Reaction.userId er)" using er_ok by (simp add: bucket_ok_def)
      have "findIndex (\<lambda>r. Reaction.userId r = uid) er \<noteq> - 1"
        using True by (simp add: findIndex_none)
      from splice1_findIndex_filter [OF d this]
      have sp: "splice1 (findIndex (\<lambda>r. Reaction.userId r = uid) er) er =
                filter (\<lambda>r. Reaction.userId r \<noteq> uid) er" .
      show ?thesis
        using Some er True
        by (auto simp: removeReaction_eq hasUserReacted_def Let_def sp update_conv' delete_conv'
            list_ex_iff filter_empty_conv delete_Nil_map_of split: option.splits if_splits)
    qed
  qed
qed

lemma remove_add_absent:
  assumes "reactions_ok s"
    and "\<not> hasUserReacted mid (Reaction.userId rx) (Reaction.emoji rx) s"
  shows "removeReaction mid (Reaction.userId rx) (Reaction.emoji rx) (addReaction mid rx s) = s"
proof -
  define em where "em = Reaction.emoji rx"
  define uid where "uid = Reaction.userId rx"
  define mr where "mr = getReactions mid s"
  define er where "er = (case map_of mr em of None \<Rightarrow> [] | Some er \<Rightarrow> er)"
  have no: "\<not> list_ex (\<lambda>r. Reaction.userId r = uid) er"
    using assms(2)
    by (auto simp: hasUserReacted_def er_def mr_def getReactions_def em_def uid_def
        split: option.splits)
  have added: "addReaction mid rx s =
      s\<lparr>reactions := AList.update mid (AList.update em (er @ [rx]) mr) (reactions s)\<rparr>"
    using no by (simp add: addReaction_eq Let_def mr_def er_def em_def uid_def)
  have idx: "findIndex (\<lambda>r. Reaction.userId r = uid) (er @ [rx]) = int (length er)"
    using no by (simp add: findIndex_last uid_def)
  have ex: "list_ex (\<lambda>r. Reaction.userId r = uid) (er @ [rx])"
    by (simp add: uid_def)
  have sp: "splice1 (findIndex (\<lambda>r. Reaction.userId r = uid) (er @ [rx])) (er @ [rx]) = er"
    by (simp only: idx splice1_length)
  have look1: "map_of (AList.update mid (AList.update em (er @ [rx]) mr) (reactions s)) mid =
      Some (AList.update em (er @ [rx]) mr)"
    by (simp add: update_conv')
  have look2: "map_of (AList.update em (er @ [rx]) mr) em = Some (er @ [rx])"
    by (simp add: update_conv')
  have removed: "removeReaction mid uid em (addReaction mid rx s) =
      s\<lparr>reactions :=
          (let mr2 = (if er = [] then AList.delete em mr else AList.update em er mr)
           in if mr2 = [] then AList.delete mid (reactions s)
              else AList.update mid mr2 (reactions s))\<rparr>"
    using no unfolding added removeReaction_eq
    by (simp add: look1 look2 sp Let_def delete_update_same flip: uid_def)
  have restored: "(let mr2 = (if er = [] then AList.delete em mr else AList.update em er mr)
           in if mr2 = [] then AList.delete mid (reactions s)
              else AList.update mid mr2 (reactions s)) = reactions s"
  proof (cases "map_of (reactions s) mid")
    case None
    then have "mr = []" by (simp add: mr_def getReactions_def)
    then have "er = []" by (simp add: er_def)
    then show ?thesis using None \<open>mr = []\<close> by (simp add: delete_absent)
  next
    case (Some mr0)
    then have mr: "mr = mr0" by (simp add: mr_def getReactions_def)
    have ok: "message_ok mr" using assms(1) Some mr by (simp add: reactions_ok_def)
    then have ne: "mr \<noteq> []" by (simp add: message_ok_def)
    show ?thesis
    proof (cases "map_of mr em")
      case None
      then have "er = []" by (simp add: er_def)
      then show ?thesis using None ne Some mr by (simp add: delete_absent update_triv)
    next
      case er0: (Some er0)
      then have er: "er = er0" by (simp add: er_def)
      have "bucket_ok em er" using ok er0 er by (simp add: message_ok_bucket)
      then have "er \<noteq> []" by (simp add: bucket_ok_def)
      then show ?thesis using er0 er ne Some mr by (simp add: update_triv)
    qed
  qed
  show ?thesis
    using removed restored by (simp add: em_def uid_def)
qed

lemma reactionsBy_addReaction_fresh:
  assumes "\<not> hasUserReacted mid (Reaction.userId rx) (Reaction.emoji rx) s"
  shows "reactionsBy mid (Reaction.userId rx) (Reaction.emoji rx) (addReaction mid rx s) = [rx]"
  using assms
  by (auto simp: reactionsBy_def addReaction_eq Let_def hasUserReacted_def getReactions_def
      update_conv' list_ex_iff filter_empty_conv split: option.splits)

subsection \<open>Removing a reaction and adding it again\<close>

lemma bucket_addReaction:
  "map_of (getReactions m (addReaction mid rx s)) e =
     (if m = mid \<and> e = Reaction.emoji rx
      then Some (if list_ex (\<lambda>r. Reaction.userId r = Reaction.userId rx)
                      (bucketOf mid (Reaction.emoji rx) s)
                 then bucketOf mid (Reaction.emoji rx) s
                 else bucketOf mid (Reaction.emoji rx) s @ [rx])
      else map_of (getReactions m s) e)"
  by (simp add: addReaction_eq Let_def getReactions_def bucketOf_def update_conv'
      split: option.splits)

lemma bucket_removeReaction:
  assumes "reactions_ok s"
  shows "map_of (getReactions m (removeReaction mid uid em s)) e =
     (if m = mid \<and> e = em
      then (if filter (\<lambda>r. Reaction.userId r \<noteq> uid) (bucketOf mid em s) = [] then None
            else Some (filter (\<lambda>r. Reaction.userId r \<noteq> uid) (bucketOf mid em s)))
      else map_of (getReactions m s) e)"
proof (cases "map_of (reactions s) mid")
  case None
  then show ?thesis
    by (simp add: removeReaction_eq getReactions_def bucketOf_def)
next
  case (Some mr)
  then have mr_ok: "message_ok mr" using assms by (simp add: reactions_ok_def)
  show ?thesis
  proof (cases "map_of mr em")
    case None
    then show ?thesis using Some
      by (simp add: removeReaction_eq getReactions_def bucketOf_def)
  next
    case er: (Some er)
    then have er_ok: "bucket_ok em er" using mr_ok by (simp add: message_ok_bucket)
    then have ne: "er \<noteq> []" and d: "distinct (map Reaction.userId er)"
      by (simp_all add: bucket_ok_def)
    show ?thesis
    proof (cases "list_ex (\<lambda>r. Reaction.userId r = uid) er")
      case False
      then have "filter (\<lambda>r. Reaction.userId r \<noteq> uid) er = er"
        by (simp add: list_ex_iff filter_id_conv)
      then show ?thesis using Some er False ne
        by (simp add: removeReaction_eq getReactions_def bucketOf_def)
    next
      case True
      have "findIndex (\<lambda>r. Reaction.userId r = uid) er \<noteq> - 1"
        using True by (simp add: findIndex_none)
      from splice1_findIndex_filter [OF d this]
      have sp: "splice1 (findIndex (\<lambda>r. Reaction.userId r = uid) er) er =
                filter (\<lambda>r. Reaction.userId r \<noteq> uid) er" .
      show ?thesis
        using Some er True
        by (auto simp: removeReaction_eq getReactions_def bucketOf_def Let_def sp update_conv'
            delete_conv' delete_Nil_map_of split: option.splits)
    qed
  qed
qed

lemma bucket_remove_then_add:
  assumes "reactions_ok s"
  shows "map_of (getReactions m
           (addReaction mid rx (removeReaction mid (Reaction.userId rx) (Reaction.emoji rx) s))) e =
     (if m = mid \<and> e = Reaction.emoji rx
      then Some (filter (\<lambda>r. Reaction.userId r \<noteq> Reaction.userId rx)
                   (bucketOf mid (Reaction.emoji rx) s) @ [rx])
      else map_of (getReactions m s) e)"
proof -
  let ?s1 = "removeReaction mid (Reaction.userId rx) (Reaction.emoji rx) s"
  have b1: "bucketOf mid (Reaction.emoji rx) ?s1 =
      filter (\<lambda>r. Reaction.userId r \<noteq> Reaction.userId rx) (bucketOf mid (Reaction.emoji rx) s)"
    using bucket_removeReaction [OF assms, of mid mid "Reaction.userId rx" "Reaction.emoji rx"
        "Reaction.emoji rx"]
    by (simp add: bucketOf_def [of mid "Reaction.emoji rx" ?s1] split: if_splits)
  show ?thesis
    by (simp add: bucket_addReaction b1 bucket_removeReaction [OF assms] list_ex_iff)
qed

lemma remove_then_add_present:
  assumes ok: "reactions_ok s"
    and has: "hasUserReacted mid (Reaction.userId rx) (Reaction.emoji rx) s"
  shows "reactions (addReaction mid rx (removeReaction mid (Reaction.userId rx) (Reaction.emoji rx) s)) =
     (let mr = getReactions mid s;
          kept = filter (\<lambda>r. Reaction.userId r \<noteq> Reaction.userId rx)
                   (bucketOf mid (Reaction.emoji rx) s)
      in if kept \<noteq> []
         then AList.update mid (AList.update (Reaction.emoji rx) (kept @ [rx]) mr) (reactions s)
         else if AList.delete (Reaction.emoji rx) mr \<noteq> []
         then AList.update mid (AList.delete (Reaction.emoji rx) mr @ [(Reaction.emoji rx, [rx])])
                (reactions s)
         else AList.delete mid (reactions s) @ [(mid, [(Reaction.emoji rx, [rx])])])"
proof -
  define em where "em = Reaction.emoji rx"
  define uid where "uid = Reaction.userId rx"
  from has obtain mr er where mr: "map_of (reactions s) mid = Some mr"
    and er: "map_of mr em = Some er" and ex: "list_ex (\<lambda>r. Reaction.userId r = uid) er"
    by (auto simp: hasUserReacted_def em_def uid_def split: option.splits)
  have mr_ok: "message_ok mr" using ok mr by (simp add: reactions_ok_def)
  then have er_ok: "bucket_ok em er" using er by (rule message_ok_bucket)
  then have d: "distinct (map Reaction.userId er)" by (simp add: bucket_ok_def)
  define kept where "kept = filter (\<lambda>r. Reaction.userId r \<noteq> uid) er"
  have "findIndex (\<lambda>r. Reaction.userId r = uid) er \<noteq> - 1"
    using ex by (simp add: findIndex_none)
  from splice1_findIndex_filter [OF d this]
  have sp: "splice1 (findIndex (\<lambda>r. Reaction.userId r = uid) er) er = kept"
    by (simp add: kept_def)
  have nokept: "\<not> list_ex (\<lambda>r. Reaction.userId r = uid) kept"
    by (simp add: kept_def list_ex_iff)
  have gr: "getReactions mid s = mr" using mr by (simp add: getReactions_def)
  have bo: "bucketOf mid em s = er" using er by (simp add: bucketOf_def gr)
  define s1 where "s1 = removeReaction mid uid em s"
  have s1: "reactions s1 =
      (if kept = []
       then (if AList.delete em mr = [] then AList.delete mid (reactions s)
             else AList.update mid (AList.delete em mr) (reactions s))
       else AList.update mid (AList.update em kept mr) (reactions s))"
    using mr er ex by (simp add: s1_def removeReaction_eq sp Let_def)
  have goal: "reactions (addReaction mid rx s1) =
      (if kept \<noteq> []
         then AList.update mid (AList.update em (kept @ [rx]) mr) (reactions s)
         else if AList.delete em mr \<noteq> []
         then AList.update mid (AList.delete em mr @ [(em, [rx])]) (reactions s)
         else AList.delete mid (reactions s) @ [(mid, [(em, [rx])])])"
  proof (cases "kept = []")
    case False
    then have r1: "reactions s1 = AList.update mid (AList.update em kept mr) (reactions s)"
      by (simp add: s1)
    have g1: "getReactions mid s1 = AList.update em kept mr"
      by (simp add: getReactions_def r1 update_conv')
    show ?thesis
      using False nokept
      by (simp add: addReaction_eq g1 r1 update_conv' Let_def flip: em_def uid_def)
  next
    case True
    show ?thesis
    proof (cases "AList.delete em mr = []")
      case False
      then have r1: "reactions s1 = AList.update mid (AList.delete em mr) (reactions s)"
        using True by (simp add: s1)
      have g1: "getReactions mid s1 = AList.delete em mr"
        by (simp add: getReactions_def r1 update_conv')
      have none: "map_of (AList.delete em mr) em = None" by (simp add: delete_conv')
      show ?thesis
        using True False
        by (simp add: addReaction_eq g1 r1 none update_absent [OF none] Let_def
            flip: em_def uid_def)
    next
      case dn: True
      then have r1: "reactions s1 = AList.delete mid (reactions s)"
        using True by (simp add: s1)
      have none: "map_of (AList.delete mid (reactions s)) mid = None" by (simp add: delete_conv')
      have g1: "getReactions mid s1 = []"
        by (simp add: getReactions_def r1 none)
      show ?thesis
        using True dn
        by (simp add: addReaction_eq g1 r1 update_absent [OF none] Let_def
            flip: em_def uid_def)
    qed
  qed
  show ?thesis
    using goal by (simp add: gr bo Let_def s1_def kept_def flip: em_def uid_def)
qed

section \<open>Properties of the WebSocketServer\<close>

subsection \<open>Broadcasts\<close>

lemma emit_fold:
  "foldl (\<lambda>st user. if P user then emit (socketId user) ev dat st else st) w us =
     w\<lparr>io := io w @ map (\<lambda>u. (socketId u, ev, dat)) (filter P us)\<rparr>"
  by (induction us arbitrary: w) (simp_all add: emit_def)

lemma broadcastToRoom_all:
  "broadcastToRoom rid ev dat None w =
     w\<lparr>io := io w @ map (\<lambda>u. (socketId u, ev, dat)) (getRoomUsers rid (roomManager w))\<rparr>"
  using emit_fold [of "\<lambda>u. True" ev dat w "getRoomUsers rid (roomManager w)"]
  by (simp add: broadcastToRoom_def)

lemma broadcastToRoom_exclude:
  "broadcastToRoom rid ev dat (Some x) w =
     w\<lparr>io := io w @ map (\<lambda>u. (socketId u, ev, dat))
                      (filter (\<lambda>u. \<not> truthy x \<or> socketId u \<noteq> x)
                         (getRoomUsers rid (roomManager w)))\<rparr>"
  using emit_fold [of "\<lambda>u. \<not> truthy x \<or> socketId u \<noteq> x" ev dat w
      "getRoomUsers rid (roomManager w)"]
  by (simp add: broadcastToRoom_def)

lemma roomManager_broadcastToRoom [simp]:
  "roomManager (broadcastToRoom rid ev dat ex w) = roomManager w"
  by (cases ex) (simp_all add: broadcastToRoom_all broadcastToRoom_exclude)

lemma connectionManager_broadcastToRoom [simp]:
  "connectionManager (broadcastToRoom rid ev dat ex w) = connectionManager w"
  by (cases ex) (simp_all add: broadcastToRoom_all broadcastToRoom_exclude)

lemma reactionManager_broadcastToRoom [simp]:
  "reactionManager (broadcastToRoom rid ev dat ex w) = reactionManager w"
  by (cases ex) (simp_all add: broadcastToRoom_all broadcastToRoom_exclude)

subsection \<open>Disconnect\<close>

lemma connectionManager_disconnectRoom [simp]:
  "connectionManager (disconnectRoom sid w rid) = connectionManager w"
  by (simp add: disconnectRoom_def Let_def split: option.splits)

lemma reactionManager_disconnectRoom [simp]:
  "reactionManager (disconnectRoom sid w rid) = reactionManager w"
  by (simp add: disconnectRoom_def Let_def split: option.splits)

lemma roomManager_disconnectRoom [simp]:
  "roomManager (disconnectRoom sid w rid) = leaveRoom rid sid (roomManager w)"
  by (simp add: disconnectRoom_def Let_def split: option.splits)

lemma io_disconnectRoom:
  assumes "rooms_keyed (roomManager w)"
  shows "io (disconnectRoom sid w rid) = io w @ userLeftBroadcast sid (roomManager w) rid"
  using getRoomUsers_leaveRoom_same [OF assms, of rid sid]
  by (simp add: disconnectRoom_def userLeftBroadcast_def Let_def broadcastToRoom_all
      split: option.splits)

lemma connectionManager_disconnect_fold [simp]:
  "connectionManager (foldl (disconnectRoom sid) w rs) = connectionManager w"
  by (induction rs arbitrary: w) simp_all

lemma reactionManager_disconnect_fold [simp]:
  "reactionManager (foldl (disconnectRoom sid) w rs) = reactionManager w"
  by (induction rs arbitrary: w) simp_all

lemma roomManager_disconnect_fold:
  "roomManager (foldl (disconnectRoom sid) w rs) =
     foldl (\<lambda>st rid. leaveRoom rid sid st) (roomManager w) rs"
  by (induction rs arbitrary: w) simp_all

lemma userLeftBroadcast_leaveRoom_other:
  "r \<noteq> rid \<Longrightarrow> userLeftBroadcast sid (leaveRoom rid sid' s) r = userLeftBroadcast sid s r"
  by (simp add: userLeftBroadcast_def getRoomUsers_leaveRoom_other cong: option.case_cong)

lemma io_disconnect_fold:
  assumes "rooms_keyed (roomManager w)" and "distinct rs"
  shows "io (foldl (disconnectRoom sid) w rs) =
           io w @ concat (map (userLeftBroadcast sid (roomManager w)) rs)"
  using assms
proof (induction rs arbitrary: w)
  case Nil
  then show ?case by simp
next
  case (Cons r rs)
  have keyed': "rooms_keyed (roomManager (disconnectRoom sid w r))"
    using Cons.prems(1) by (simp add: rooms_keyed_leaveRoom)
  have rest: "map (userLeftBroadcast sid (leaveRoom r sid (roomManager w))) rs =
              map (userLeftBroadcast sid (roomManager w)) rs"
    using Cons.prems(2) by (auto intro!: userLeftBroadcast_leaveRoom_other)
  have "io (foldl (disconnectRoom sid) (disconnectRoom sid w r) rs) =
          io (disconnectRoom sid w r) @
          concat (map (userLeftBroadcast sid (roomManager (disconnectRoom sid w r))) rs)"
    using Cons.prems(2) by (intro Cons.IH [OF keyed']) simp
  then show ?case
    by (simp add: rest io_disconnectRoom [OF Cons.prems(1)])
qed

text \<open>
  Claim C4. On the disconnect of socket \<open>sid\<close>, with the registry in a state that some
  sequence of calls produced: the rooms walked are those of \<open>getUserRooms sid\<close>, read
  first; for each of them the snapshot of \<open>sid\<close> is found, \<open>leaveRoom\<close> is called, and
  every user who remains in the room is sent one \<^verbatim>\<open>room:user_left\<close> event that names the
  user who left and lists those who remain (\<open>userLeftBroadcast\<close>). The connection manager
  is untouched after any number of rooms has been processed, so \<open>getUserBySocket sid\<close>
  answers during the cleanup as it did before; \<open>removeConnection\<close> comes last and leaves
  \<open>getUserBySocket sid\<close> undefined.
\<close>

theorem handleDisconnect_cleanup:
  assumes "roomManager w = RoomManager_run calls"
  shows
    "(\<forall>n. getUserBySocket sid
             (connectionManager
                (foldl (disconnectRoom sid) w (take n (getUserRooms sid (roomManager w)))))
           = getUserBySocket sid (connectionManager w))
     \<and> connectionManager (handleDisconnect sid w) = removeConnection sid (connectionManager w)
     \<and> getUserBySocket sid (connectionManager (handleDisconnect sid w)) = None
     \<and> roomManager (handleDisconnect sid w) =
         foldl (\<lambda>st rid. leaveRoom rid sid st) (roomManager w)
           (getUserRooms sid (roomManager w))
     \<and> io (handleDisconnect sid w) =
         io w @ concat (map (userLeftBroadcast sid (roomManager w))
                          (getUserRooms sid (roomManager w)))
     \<and> list_all (\<lambda>rid. find (\<lambda>u. socketId u = sid) (getRoomUsers rid (roomManager w)) \<noteq> None)
         (getUserRooms sid (roomManager w))
     \<and> reactionManager (handleDisconnect sid w) = reactionManager w"
proof -
  have keyed: "rooms_keyed (roomManager w)"
    using assms by (simp add: rooms_keyed_run)
  have dist: "distinct (getUserRooms sid (roomManager w))"
    using assms by (simp add: distinct_getUserRooms_run)
  have found: "find (\<lambda>u. socketId u = sid) (getRoomUsers rid (roomManager w)) \<noteq> None"
    if "rid \<in> set (getUserRooms sid (roomManager w))" for rid
  proof -
    have "isUserInRoom rid sid (roomManager w)"
      using that assms by (simp add: consistent_RoomManager_run)
    from find_isUserInRoom [OF keyed this] show ?thesis by auto
  qed
  have "io (handleDisconnect sid w) =
         io w @ concat (map (userLeftBroadcast sid (roomManager w))
                          (getUserRooms sid (roomManager w)))"
    by (simp add: handleDisconnect_def Let_def io_disconnect_fold [OF keyed dist])
  moreover have "roomManager (handleDisconnect sid w) =
         foldl (\<lambda>st rid. leaveRoom rid sid st) (roomManager w)
           (getUserRooms sid (roomManager w))"
    by (simp add: handleDisconnect_def Let_def roomManager_disconnect_fold)
  ultimately show ?thesis
    using found
    by (simp add: handleDisconnect_def Let_def getUserBySocket_removeConnection list_all_iff)
qed

theorem handleDisconnect_cleanup_witness:
  "getUserRooms ''B'' (RoomManager_run [JoinRoom ''r1'' alice 1, JoinRoom ''r1'' bob 2, JoinRoom ''r2'' bob 3])
     = [''r1'', ''r2'']
   \<and> getUserBySocket ''B''
        (connectionManager
           (foldl (disconnectRoom ''B'')
              (connected (Application_after [JoinRoom ''r1'' alice 1, JoinRoom ''r1'' bob 2, JoinRoom ''r2'' bob 3]))
              [''r1'', ''r2'']))
     = Some ''B''
   \<and> handleDisconnect ''B''
        (connected (Application_after [JoinRoom ''r1'' alice 1, JoinRoom ''r1'' bob 2, JoinRoom ''r2'' bob 3]))
     = \<lparr>connectionManager = \<lparr>socketToUser = [(''A'', ''A'')], userToSockets = [(''A'', [''A''])]\<rparr>,
        roomManager =
          \<lparr>rooms = [(''r1'', \<lparr>id' = ''r1'', users = [(''A'', alice)], createdAt = 1\<rparr>)],
           socketToRooms = [(''A'', [''r1'']), (''B'', [])]\<rparr>,
        reactionManager = ReactionManager_init,
        io = [(''A'', ''room:user_left'',
               RoomUserLeft ''r1'' (''B'', ''bob'') [(''A'', ''alice'')])]\<rparr>"
  using handleDisconnect_cleanup [of
      "connected (Application_after [JoinRoom ''r1'' alice 1, JoinRoom ''r1'' bob 2, JoinRoom ''r2'' bob 3])"
      "[JoinRoom ''r1'' alice 1, JoinRoom ''r1'' bob 2, JoinRoom ''r2'' bob 3]" "''B''"]
  apply (simp add: connected_def Application_after_def)
  apply (simp add: RoomManager_eval handleDisconnect_def disconnectRoom_def broadcastToRoom_def emit_def
      toUserRef_def addConnection_def removeConnection_def getUserBySocket_def
      ConnectionManager_init_def truthy_def userLeftBroadcast_def)
  done

section \<open>Properties of the handlers\<close>

text \<open>
  Claim C6. For a payload that the schema accepts, with the registry in a state that some
  sequence of calls produced: \<open>handle\<close> fails with \<^verbatim>\<open>User not in room\<close> if and only if the
  sender is not a member of the room; on that failure the application is unchanged, so no
  table changed and nothing was emitted; otherwise the sender is found, no table changes,
  and one \<^verbatim>\<open>chat:message\<close> event with message id, room id, the sender's user id and name,
  the text, the server time and an empty reaction map is emitted to each member of the
  room, the sender among them, each once.
\<close>

theorem chat_message_broadcast:
  assumes "roomManager w = RoomManager_run calls" and "safeParse raw = Inr dat"
  shows
    "(fst (handle (Some safeParse) (ChatMessageHandler_execute now) sid ev raw w)
        = Some (Error ''User not in room'')
      \<longleftrightarrow> \<not> isUserInRoom (ChatMessage.roomId dat) sid (roomManager w))
     \<and> (\<not> isUserInRoom (ChatMessage.roomId dat) sid (roomManager w) \<longrightarrow>
          snd (handle (Some safeParse) (ChatMessageHandler_execute now) sid ev raw w) = w)
     \<and> (isUserInRoom (ChatMessage.roomId dat) sid (roomManager w) \<longrightarrow>
          (\<exists>sender.
             find (\<lambda>u. socketId u = sid) (getRoomUsers (ChatMessage.roomId dat) (roomManager w))
               = Some sender
             \<and> socketId sender = sid
             \<and> handle (Some safeParse) (ChatMessageHandler_execute now) sid ev raw w =
                 (None,
                  w\<lparr>io := io w @
                     map (\<lambda>u. (socketId u, ''chat:message'',
                               ChatMessageOut (ChatMessage.messageId dat) (ChatMessage.roomId dat)
                                 (RoomUser.userId sender, RoomUser.username sender)
                                 (message dat) now []))
                       (getRoomUsers (ChatMessage.roomId dat) (roomManager w))\<rparr>))
          \<and> sid \<in> set (map socketId (getRoomUsers (ChatMessage.roomId dat) (roomManager w)))
          \<and> distinct (map socketId (getRoomUsers (ChatMessage.roomId dat) (roomManager w))))"
proof -
  have keyed: "rooms_keyed (roomManager w)"
    using assms(1) by (simp add: rooms_keyed_run)
  have h: "handle (Some safeParse) (ChatMessageHandler_execute now) sid ev raw w =
             ChatMessageHandler_execute now sid ev dat w"
    using assms(2) by (simp add: handle_def)
  show ?thesis
  proof (cases "isUserInRoom (ChatMessage.roomId dat) sid (roomManager w)")
    case False
    then show ?thesis by (simp add: h ChatMessageHandler_execute_def)
  next
    case True
    from find_isUserInRoom [OF keyed True] obtain sender where
      sender: "find (\<lambda>u. socketId u = sid) (getRoomUsers (ChatMessage.roomId dat) (roomManager w))
                 = Some sender" "socketId sender = sid"
      by blast
    have "sid \<in> set (map socketId (getRoomUsers (ChatMessage.roomId dat) (roomManager w)))"
      using True member_iff_isUserInRoom [OF keyed] by blast
    moreover note distinct_socketIds_getRoomUsers [OF keyed, of "ChatMessage.roomId dat"]
    ultimately show ?thesis
      using True sender
      by (simp add: h ChatMessageHandler_execute_def broadcastToRoom_all toUserRef_def)
  qed
qed

theorem chat_message_broadcast_witness:
  "handle (Some Inr) (ChatMessageHandler_execute 5) ''A'' ''chat:message''
      \<lparr>message = ''hi'', roomId = ''r1'', messageId = ''m1'', timestamp = None\<rparr>
      (Application_after [JoinRoom ''r1'' alice 1, JoinRoom ''r1'' bob 2])
    = (None,
       (Application_after [JoinRoom ''r1'' alice 1, JoinRoom ''r1'' bob 2])
         \<lparr>io := [(''A'', ''chat:message'',
                    ChatMessageOut ''m1'' ''r1'' (''A'', ''alice'') ''hi'' 5 []),
                  (''B'', ''chat:message'',
                    ChatMessageOut ''m1'' ''r1'' (''A'', ''alice'') ''hi'' 5 [])]\<rparr>)
   \<and> handle (Some Inr) (ChatMessageHandler_execute 5) ''C'' ''chat:message''
      \<lparr>message = ''hi'', roomId = ''r1'', messageId = ''m1'', timestamp = None\<rparr>
      (Application_after [JoinRoom ''r1'' alice 1, JoinRoom ''r1'' bob 2])
    = (Some (Error ''User not in room''),
       Application_after [JoinRoom ''r1'' alice 1, JoinRoom ''r1'' bob 2])"
  using chat_message_broadcast [of "Application_after [JoinRoom ''r1'' alice 1, JoinRoom ''r1'' bob 2]"
      "[JoinRoom ''r1'' alice 1, JoinRoom ''r1'' bob 2]" Inr
      "\<lparr>message = ''hi'', roomId = ''r1'', messageId = ''m1'', timestamp = None\<rparr>"
      "\<lparr>message = ''hi'', roomId = ''r1'', messageId = ''m1'', timestamp = None\<rparr>"
      5 "''A''" "''chat:message''"]
    chat_message_broadcast [of "Application_after [JoinRoom ''r1'' alice 1, JoinRoom ''r1'' bob 2]"
      "[JoinRoom ''r1'' alice 1, JoinRoom ''r1'' bob 2]" Inr
      "\<lparr>message = ''hi'', roomId = ''r1'', messageId = ''m1'', timestamp = None\<rparr>"
      "\<lparr>message = ''hi'', roomId = ''r1'', messageId = ''m1'', timestamp = None\<rparr>"
      5 "''C''" "''chat:message''"]
  by (simp add: Application_after_def RoomManager_eval prod_eq_iff)

text \<open>
  Claim C9. With the registry in a state that some sequence of calls produced, a true
  \<open>isUserInRoom\<close> guard implies that the search for the socket id among \<open>getRoomUsers\<close>
  succeeds, so none of the three handlers returns its \<^verbatim>\<open>Sender not found\<close>,
  \<^verbatim>\<open>User not found\<close> or \<^verbatim>\<open>Typer not found\<close> error.
\<close>

theorem not_found_branches_unreachable:
  assumes "roomManager w = RoomManager_run calls"
  shows "(isUserInRoom rid sid (roomManager w) \<longrightarrow>
            find (\<lambda>u. socketId u = sid) (getRoomUsers rid (roomManager w)) \<noteq> None)
     \<and> fst (ChatMessageHandler_execute now sid ev cm w) \<noteq> Some (Error ''Sender not found'')
     \<and> fst (MessageReactionHandler_execute now sid ev mr w) \<noteq> Some (Error ''User not found'')
     \<and> fst (TypingIndicatorHandler_execute sid ev ti w) \<noteq> Some (Error ''Typer not found'')"
proof -
  have keyed: "rooms_keyed (roomManager w)"
    using assms by (simp add: rooms_keyed_run)
  have found: "find (\<lambda>u. socketId u = sid) (getRoomUsers r (roomManager w)) \<noteq> None"
    if "isUserInRoom r sid (roomManager w)" for r
    using find_isUserInRoom [OF keyed that] by auto
  have "fst (ChatMessageHandler_execute now sid ev cm w) \<noteq> Some (Error ''Sender not found'')"
    using found [of "ChatMessage.roomId cm"]
    by (auto simp: ChatMessageHandler_execute_def Let_def split: option.splits)
  moreover
  have "fst (MessageReactionHandler_execute now sid ev mr w) \<noteq> Some (Error ''User not found'')"
    using found [of "MessageReaction.roomId mr"]
    by (auto simp: MessageReactionHandler_execute_def Let_def split: option.splits)
  moreover
  have "fst (TypingIndicatorHandler_execute sid ev ti w) \<noteq> Some (Error ''Typer not found'')"
    using found [of "TypingIndicator.roomId ti"]
    by (auto simp: TypingIndicatorHandler_execute_def Let_def split: option.splits)
  ultimately show ?thesis using found by blast
qed

theorem not_found_branches_unreachable_witness:
  "isUserInRoom ''r1'' ''B'' (roomManager (Application_after [JoinRoom ''r1'' alice 1, JoinRoom ''r1'' bob 2]))
   \<and> find (\<lambda>u. socketId u = ''B'')
        (getRoomUsers ''r1'' (roomManager (Application_after [JoinRoom ''r1'' alice 1, JoinRoom ''r1'' bob 2])))
      = Some bob
   \<and> fst (TypingIndicatorHandler_execute ''B'' ''room:typing'' \<lparr>roomId = ''r1'', isTyping = True\<rparr>
        (Application_after [JoinRoom ''r1'' alice 1, JoinRoom ''r1'' bob 2])) = None"
  using not_found_branches_unreachable [of "Application_after [JoinRoom ''r1'' alice 1, JoinRoom ''r1'' bob 2]"
      "[JoinRoom ''r1'' alice 1, JoinRoom ''r1'' bob 2]" "''r1''" "''B''" 0 "''room:typing''"
      "\<lparr>message = ''hi'', roomId = ''r1'', messageId = ''m1'', timestamp = None\<rparr>"
      "\<lparr>messageId = ''m1'', roomId = ''r1'', emoji = ''+''\<rparr>"
      "\<lparr>roomId = ''r1'', isTyping = True\<rparr>"]
  by (simp add: Application_after_def RoomManager_eval TypingIndicatorHandler_execute_def)

text \<open>
  Claim C8. For a typing event whose sender is a member of the room, with the registry in a
  state that some sequence of calls produced and the sender's socket id not the empty
  string (Socket.IO never issues an empty id): the handler succeeds, the sender is found,
  and one \<^verbatim>\<open>room:typing\<close> event with the room id, the sender's user id and name and the
  typing flag is emitted to each member of the room other than the sender, each once; the
  sender is not among the targets, and the connection, room and reaction managers are
  unchanged.
\<close>

theorem typing_excludes_sender:
  assumes "roomManager w = RoomManager_run calls"
    and "isUserInRoom (TypingIndicator.roomId dat) sid (roomManager w)"
    and "sid \<noteq> []"
  shows "(\<exists>typer.
           find (\<lambda>u. socketId u = sid) (getRoomUsers (TypingIndicator.roomId dat) (roomManager w))
             = Some typer
           \<and> socketId typer = sid
           \<and> TypingIndicatorHandler_execute sid ev dat w =
               (None,
                w\<lparr>io := io w @
                   map (\<lambda>u. (socketId u, ''room:typing'',
                             RoomTyping (TypingIndicator.roomId dat) (RoomUser.userId typer)
                               (RoomUser.username typer) (isTyping dat)))
                     (filter (\<lambda>u. socketId u \<noteq> sid)
                        (getRoomUsers (TypingIndicator.roomId dat) (roomManager w)))\<rparr>))
     \<and> map fst (drop (length (io w)) (io (snd (TypingIndicatorHandler_execute sid ev dat w))))
         = filter (\<lambda>t. t \<noteq> sid)
             (map socketId (getRoomUsers (TypingIndicator.roomId dat) (roomManager w)))
     \<and> sid \<notin> set (map fst (drop (length (io w))
                    (io (snd (TypingIndicatorHandler_execute sid ev dat w)))))
     \<and> distinct (map fst (drop (length (io w))
                    (io (snd (TypingIndicatorHandler_execute sid ev dat w)))))
     \<and> take (length (io w)) (io (snd (TypingIndicatorHandler_execute sid ev dat w))) = io w
     \<and> roomManager (snd (TypingIndicatorHandler_execute sid ev dat w)) = roomManager w
     \<and> connectionManager (snd (TypingIndicatorHandler_execute sid ev dat w)) = connectionManager w
     \<and> reactionManager (snd (TypingIndicatorHandler_execute sid ev dat w)) = reactionManager w"
proof -
  let ?users = "getRoomUsers (TypingIndicator.roomId dat) (roomManager w)"
  have keyed: "rooms_keyed (roomManager w)"
    using assms(1) by (simp add: rooms_keyed_run)
  from find_isUserInRoom [OF keyed assms(2)] obtain typer where
    typer: "find (\<lambda>u. socketId u = sid) ?users = Some typer" "socketId typer = sid"
    by blast
  have run: "TypingIndicatorHandler_execute sid ev dat w =
      (None,
       w\<lparr>io := io w @
          map (\<lambda>u. (socketId u, ''room:typing'',
                    RoomTyping (TypingIndicator.roomId dat) (RoomUser.userId typer)
                      (RoomUser.username typer) (isTyping dat)))
            (filter (\<lambda>u. socketId u \<noteq> sid) ?users)\<rparr>)"
    using typer(1) assms(2,3)
    by (simp add: TypingIndicatorHandler_execute_def broadcastToRoom_exclude truthy_def)
  have targets: "map fst (drop (length (io w))
        (io (snd (TypingIndicatorHandler_execute sid ev dat w)))) =
      filter (\<lambda>t. t \<noteq> sid) (map socketId ?users)"
    by (simp add: run filter_map comp_def)
  have "distinct (map socketId ?users)"
    using keyed by (rule distinct_socketIds_getRoomUsers)
  then have "distinct (filter (\<lambda>t. t \<noteq> sid) (map socketId ?users))"
    by (rule distinct_filter)
  then have once: "distinct (map fst (drop (length (io w))
        (io (snd (TypingIndicatorHandler_execute sid ev dat w)))))"
    by (simp only: targets)
  have others: "sid \<notin> set (map fst (drop (length (io w))
        (io (snd (TypingIndicatorHandler_execute sid ev dat w)))))"
    unfolding targets by simp
  have before: "take (length (io w)) (io (snd (TypingIndicatorHandler_execute sid ev dat w)))
      = io w"
    by (simp add: run)
  have frame: "roomManager (snd (TypingIndicatorHandler_execute sid ev dat w)) = roomManager w"
    "connectionManager (snd (TypingIndicatorHandler_execute sid ev dat w)) = connectionManager w"
    "reactionManager (snd (TypingIndicatorHandler_execute sid ev dat w)) = reactionManager w"
    by (simp_all add: run)
  have found: "\<exists>typer.
      find (\<lambda>u. socketId u = sid) ?users = Some typer
      \<and> socketId typer = sid
      \<and> TypingIndicatorHandler_execute sid ev dat w =
          (None,
           w\<lparr>io := io w @
              map (\<lambda>u. (socketId u, ''room:typing'',
                        RoomTyping (TypingIndicator.roomId dat) (RoomUser.userId typer)
                          (RoomUser.username typer) (isTyping dat)))
                (filter (\<lambda>u. socketId u \<noteq> sid) ?users)\<rparr>)"
    using typer run by blast
  from found targets others once before frame show ?thesis
    by blast
qed

theorem typing_excludes_sender_witness:
  "isUserInRoom ''r1'' ''A'' (roomManager chatroom)
   \<and> TypingIndicatorHandler_execute ''A'' ''room:typing'' \<lparr>roomId = ''r1'', isTyping = True\<rparr>
        chatroom
     = (None,
        chatroom\<lparr>io := [(''B'', ''room:typing'', RoomTyping ''r1'' ''A'' ''alice'' True)]\<rparr>)"
  using typing_excludes_sender [of chatroom "[JoinRoom ''r1'' alice 1, JoinRoom ''r1'' bob 2]"
      "\<lparr>roomId = ''r1'', isTyping = True\<rparr>" "''A''" "''room:typing''"]
  by (simp add: chatroom_def Application_after_def RoomManager_eval
      TypingIndicatorHandler_execute_def broadcastToRoom_def emit_def truthy_def)

text \<open>
  The condition on the socket id is needed. \<open>broadcastToRoom\<close> takes an empty
  \<^verbatim>\<open>excludeSocketId\<close> for a missing one and excludes nobody, so a sender whose socket id
  were the empty string would be sent its own typing event.
\<close>

lemma typing_empty_socket_id_echo:
  "TypingIndicatorHandler_execute [] ''room:typing'' \<lparr>roomId = ''r1'', isTyping = True\<rparr>
     (Application_after
        [JoinRoom ''r1'' \<lparr>socketId = [], userId = [], username = ''alice'', joinedAt = 1\<rparr> 1,
         JoinRoom ''r1'' bob 2])
   = (None,
      (Application_after
         [JoinRoom ''r1'' \<lparr>socketId = [], userId = [], username = ''alice'', joinedAt = 1\<rparr> 1,
          JoinRoom ''r1'' bob 2])
        \<lparr>io := [([], ''room:typing'', RoomTyping ''r1'' [] ''alice'' True),
                 (''B'', ''room:typing'', RoomTyping ''r1'' [] ''alice'' True)]\<rparr>)"
  by (simp add: TypingIndicatorHandler_execute_def broadcastToRoom_def emit_def truthy_def
      Application_after_def RoomManager_eval)

lemma MessageReactionHandler_execute_member:
  assumes "isUserInRoom (MessageReaction.roomId dat) sid (roomManager w)"
    and "find (\<lambda>u. socketId u = sid) (getRoomUsers (MessageReaction.roomId dat) (roomManager w))
           = Some user"
  shows "fst (MessageReactionHandler_execute now sid ev dat w) = None"
    and "roomManager (snd (MessageReactionHandler_execute now sid ev dat w)) = roomManager w"
    and "reactionManager (snd (MessageReactionHandler_execute now sid ev dat w)) =
          (if hasUserReacted (MessageReaction.messageId dat) (RoomUser.userId user)
                (MessageReaction.emoji dat) (reactionManager w)
           then removeReaction (MessageReaction.messageId dat) (RoomUser.userId user)
                  (MessageReaction.emoji dat) (reactionManager w)
           else addReaction (MessageReaction.messageId dat)
                  \<lparr>Reaction.userId = RoomUser.userId user,
                   Reaction.username = RoomUser.username user,
                   Reaction.emoji = MessageReaction.emoji dat,
                   Reaction.timestamp = now\<rparr>
                  (reactionManager w))"
  using assms by (simp_all add: MessageReactionHandler_execute_def Let_def)

text \<open>
  Claim C2, as amended. Two reaction events in immediate succession that resolve to the
  same message id, emoji and user id both succeed. If the user held no such reaction, the
  first adds it and the second removes it, and the reaction manager is again exactly as it
  was before the two, so the record is absent and no bucket or message entry is left
  behind. If the user held one, the first removes it and the second adds a new record with
  the user name and time of the second event; the bucket of that message and emoji is
  then the old bucket without the user's old record, in its old order, with the new record
  appended at the end, so the user holds exactly one record there; every other bucket of
  every message is as it was. The whole table is the old one with that bucket replaced
  in place when other records remain in it, and otherwise with the re-created bucket (or,
  when the message had no other bucket, the re-created message entry) at the end.
\<close>

theorem toggle_twice:
  fixes w :: Application and now now' :: Date and sid sid' ev ev' :: string
    and dat dat' :: MessageReaction
  defines "w1 \<equiv> snd (MessageReactionHandler_execute now sid ev dat w)"
  defines "w2 \<equiv> snd (MessageReactionHandler_execute now' sid' ev' dat' w1)"
  assumes rx: "reactionManager w = ReactionManager_run calls"
    and m1: "isUserInRoom (MessageReaction.roomId dat) sid (roomManager w)"
    and u1: "find (\<lambda>u. socketId u = sid)
               (getRoomUsers (MessageReaction.roomId dat) (roomManager w)) = Some user"
    and m2: "isUserInRoom (MessageReaction.roomId dat') sid' (roomManager w)"
    and u2: "find (\<lambda>u. socketId u = sid')
               (getRoomUsers (MessageReaction.roomId dat') (roomManager w)) = Some user'"
    and same: "MessageReaction.messageId dat' = MessageReaction.messageId dat"
      "MessageReaction.emoji dat' = MessageReaction.emoji dat"
      "RoomUser.userId user' = RoomUser.userId user"
  shows "fst (MessageReactionHandler_execute now sid ev dat w) = None
     \<and> fst (MessageReactionHandler_execute now' sid' ev' dat' w1) = None
     \<and> (if hasUserReacted (MessageReaction.messageId dat) (RoomUser.userId user)
              (MessageReaction.emoji dat) (reactionManager w)
         then \<not> hasUserReacted (MessageReaction.messageId dat) (RoomUser.userId user)
                  (MessageReaction.emoji dat) (reactionManager w1)
            \<and> hasUserReacted (MessageReaction.messageId dat) (RoomUser.userId user)
                  (MessageReaction.emoji dat) (reactionManager w2)
            \<and> reactionsBy (MessageReaction.messageId dat) (RoomUser.userId user)
                  (MessageReaction.emoji dat) (reactionManager w2)
                = [\<lparr>Reaction.userId = RoomUser.userId user,
                    Reaction.username = RoomUser.username user',
                    Reaction.emoji = MessageReaction.emoji dat,
                    Reaction.timestamp = now'\<rparr>]
            \<and> map_of (getReactions mid' (reactionManager w2)) em' =
                (if mid' = MessageReaction.messageId dat \<and> em' = MessageReaction.emoji dat
                 then Some (filter (\<lambda>r. Reaction.userId r \<noteq> RoomUser.userId user)
                              (bucketOf (MessageReaction.messageId dat)
                                 (MessageReaction.emoji dat) (reactionManager w))
                            @ [\<lparr>Reaction.userId = RoomUser.userId user,
                                Reaction.username = RoomUser.username user',
                                Reaction.emoji = MessageReaction.emoji dat,
                                Reaction.timestamp = now'\<rparr>])
                 else map_of (getReactions mid' (reactionManager w)) em')
            \<and> reactions (reactionManager w2) =
                (let mr = getReactions (MessageReaction.messageId dat) (reactionManager w);
                     kept = filter (\<lambda>r. Reaction.userId r \<noteq> RoomUser.userId user)
                              (bucketOf (MessageReaction.messageId dat)
                                 (MessageReaction.emoji dat) (reactionManager w));
                     new = \<lparr>Reaction.userId = RoomUser.userId user,
                            Reaction.username = RoomUser.username user',
                            Reaction.emoji = MessageReaction.emoji dat,
                            Reaction.timestamp = now'\<rparr>
                 in if kept \<noteq> []
                    then AList.update (MessageReaction.messageId dat)
                           (AList.update (MessageReaction.emoji dat) (kept @ [new]) mr)
                           (reactions (reactionManager w))
                    else if AList.delete (MessageReaction.emoji dat) mr \<noteq> []
                    then AList.update (MessageReaction.messageId dat)
                           (AList.delete (MessageReaction.emoji dat) mr
                            @ [(MessageReaction.emoji dat, [new])])
                           (reactions (reactionManager w))
                    else AList.delete (MessageReaction.messageId dat)
                           (reactions (reactionManager w))
                         @ [(MessageReaction.messageId dat,
                             [(MessageReaction.emoji dat, [new])])])
         else hasUserReacted (MessageReaction.messageId dat) (RoomUser.userId user)
                  (MessageReaction.emoji dat) (reactionManager w1)
            \<and> reactionManager w2 = reactionManager w
            \<and> \<not> hasUserReacted (MessageReaction.messageId dat) (RoomUser.userId user)
                  (MessageReaction.emoji dat) (reactionManager w2))"
proof -
  let ?m = "MessageReaction.messageId dat"
  let ?u = "RoomUser.userId user"
  let ?e = "MessageReaction.emoji dat"
  let ?new = "\<lambda>un t. \<lparr>Reaction.userId = ?u, Reaction.username = un, Reaction.emoji = ?e,
                       Reaction.timestamp = t\<rparr>"
  have ok: "reactions_ok (reactionManager w)"
    using rx by (simp add: reactions_ok_run)
  note first = MessageReactionHandler_execute_member [OF m1 u1, of now ev]
  have rooms1: "roomManager w1 = roomManager w"
    by (simp add: w1_def first)
  note second = MessageReactionHandler_execute_member [of dat' sid' w1 user' now' ev',
      unfolded rooms1, OF m2 u2]
  have step1: "reactionManager w1 =
      (if hasUserReacted ?m ?u ?e (reactionManager w)
       then removeReaction ?m ?u ?e (reactionManager w)
       else addReaction ?m (?new (RoomUser.username user) now) (reactionManager w))"
    by (simp add: w1_def first)
  have step2: "reactionManager w2 =
      (if hasUserReacted ?m ?u ?e (reactionManager w1)
       then removeReaction ?m ?u ?e (reactionManager w1)
       else addReaction ?m (?new (RoomUser.username user') now') (reactionManager w1))"
    by (simp add: w2_def second same)
  have errs: "fst (MessageReactionHandler_execute now sid ev dat w) = None
     \<and> fst (MessageReactionHandler_execute now' sid' ev' dat' w1) = None"
    by (simp add: first second)
  show ?thesis
  proof (cases "hasUserReacted ?m ?u ?e (reactionManager w)")
    case True
    have gone: "\<not> hasUserReacted ?m ?u ?e (reactionManager w1)"
      using True by (simp add: step1 hasUserReacted_removeReaction [OF ok])
    then have two: "reactionManager w2 =
        addReaction ?m (?new (RoomUser.username user') now') (reactionManager w1)"
      by (simp add: step2)
    have "hasUserReacted ?m ?u ?e (reactionManager w2)"
      by (simp add: two hasUserReacted_addReaction)
    moreover have "reactionsBy ?m ?u ?e (reactionManager w2) = [?new (RoomUser.username user') now']"
      using reactionsBy_addReaction_fresh [of ?m "?new (RoomUser.username user') now'" "reactionManager w1"]
        gone by (simp add: two)
    moreover have "reactionManager w2 =
        addReaction ?m (?new (RoomUser.username user') now')
          (removeReaction ?m ?u ?e (reactionManager w))"
      using True by (simp add: two step1)
    then have "map_of (getReactions mid' (reactionManager w2)) em' =
        (if mid' = ?m \<and> em' = ?e
         then Some (filter (\<lambda>r. Reaction.userId r \<noteq> ?u) (bucketOf ?m ?e (reactionManager w))
                    @ [?new (RoomUser.username user') now'])
         else map_of (getReactions mid' (reactionManager w)) em')"
      and "reactions (reactionManager w2) =
        (let mr = getReactions ?m (reactionManager w);
             kept = filter (\<lambda>r. Reaction.userId r \<noteq> ?u) (bucketOf ?m ?e (reactionManager w));
             new = ?new (RoomUser.username user') now'
         in if kept \<noteq> []
            then AList.update ?m (AList.update ?e (kept @ [new]) mr) (reactions (reactionManager w))
            else if AList.delete ?e mr \<noteq> []
            then AList.update ?m (AList.delete ?e mr @ [(?e, [new])])
                   (reactions (reactionManager w))
            else AList.delete ?m (reactions (reactionManager w)) @ [(?m, [(?e, [new])])])"
      using bucket_remove_then_add [OF ok, where m = mid' and mid = ?m and e = em'
            and rx = "?new (RoomUser.username user') now'"]
        remove_then_add_present [OF ok, where mid = ?m
            and rx = "?new (RoomUser.username user') now'"] True
      by (simp_all add: Let_def)
    ultimately show ?thesis using True gone errs by (simp add: Let_def)
  next
    case False
    then have one: "reactionManager w1 =
        addReaction ?m (?new (RoomUser.username user) now) (reactionManager w)"
      by (simp add: step1)
    have there: "hasUserReacted ?m ?u ?e (reactionManager w1)"
      by (simp add: one hasUserReacted_addReaction)
    then have "reactionManager w2 = removeReaction ?m ?u ?e (reactionManager w1)"
      by (simp add: step2)
    then have "reactionManager w2 = reactionManager w"
      using remove_add_absent [OF ok, of ?m "?new (RoomUser.username user) now"] False
      by (simp add: one)
    then show ?thesis using False there errs by simp
  qed
qed

text \<open>The example room, and the reaction event on it, evaluated.\<close>

lemma chatroom_eval:
  "chatroom =
     \<lparr>connectionManager = \<lparr>socketToUser = [], userToSockets = []\<rparr>,
      roomManager =
        \<lparr>rooms = [(''r1'', \<lparr>id' = ''r1'', users = [(''A'', alice), (''B'', bob)], createdAt = 1\<rparr>)],
         socketToRooms = [(''A'', [''r1'']), (''B'', [''r1''])]\<rparr>,
      reactionManager = \<lparr>reactions = []\<rparr>, io = []\<rparr>"
  by (simp add: chatroom_def Application_after_def RoomManager_eval ConnectionManager_init_def
      ReactionManager_init_def)

lemma react_eval:
  shows "reactionManager (react now sid w) =
     (if isUserInRoom ''r1'' sid (roomManager w) then
        (case find (\<lambda>u. socketId u = sid) (getRoomUsers ''r1'' (roomManager w)) of
           None \<Rightarrow> reactionManager w
         | Some user \<Rightarrow>
             if hasUserReacted ''m1'' (RoomUser.userId user) thumbsUp (reactionManager w)
             then removeReaction ''m1'' (RoomUser.userId user) thumbsUp (reactionManager w)
             else addReaction ''m1''
                    \<lparr>Reaction.userId = RoomUser.userId user,
                     Reaction.username = RoomUser.username user,
                     Reaction.emoji = thumbsUp, Reaction.timestamp = now\<rparr>
                    (reactionManager w))
      else reactionManager w)"
    and "roomManager (react now sid w) = roomManager w"
  by (simp_all add: react_def MessageReactionHandler_execute_def thumbOnM1_def Let_def
      split: option.splits)

theorem toggle_twice_witness:
  "reactionManager chatroom = ReactionManager_run []
   \<and> isUserInRoom ''r1'' ''B'' (roomManager chatroom)
   \<and> find (\<lambda>u. socketId u = ''B'') (getRoomUsers ''r1'' (roomManager chatroom)) = Some bob
   \<and> \<not> hasUserReacted ''m1'' ''B'' thumbsUp (reactionManager chatroom)
   \<and> reactionManager (react 11 ''B'' (react 10 ''B'' chatroom)) = \<lparr>reactions = []\<rparr>
   \<and> hasUserReacted ''m1'' ''A'' thumbsUp
         (reactionManager (react 11 ''B'' (react 10 ''A'' chatroom)))
   \<and> reactionsBy ''m1'' ''A'' thumbsUp
         (reactionManager
            (react 13 ''A'' (react 12 ''A'' (react 11 ''B'' (react 10 ''A'' chatroom)))))
       = [\<lparr>Reaction.userId = ''A'', username = ''alice'', emoji = thumbsUp, timestamp = 13\<rparr>]
   \<and> reactions
         (reactionManager
            (react 13 ''A'' (react 12 ''A'' (react 11 ''B'' (react 10 ''A'' chatroom)))))
       = [(''m1'',
           [(thumbsUp,
             [\<lparr>Reaction.userId = ''B'', username = ''bob'', emoji = thumbsUp, timestamp = 11\<rparr>,
              \<lparr>Reaction.userId = ''A'', username = ''alice'', emoji = thumbsUp,
                 timestamp = 13\<rparr>])])]"
proof -
  let ?a = "\<lparr>Reaction.userId = ''A'', username = ''alice'', emoji = thumbsUp, timestamp = 10\<rparr>"
  let ?b = "\<lparr>Reaction.userId = ''B'', username = ''bob'', emoji = thumbsUp, timestamp = 11\<rparr>"
  let ?both = "react 11 ''B'' (react 10 ''A'' chatroom)"
  have start: "reactionManager chatroom = ReactionManager_run []"
    by (simp add: chatroom_eval ReactionManager_run_def ReactionManager_init_def)
  have memberA: "isUserInRoom (MessageReaction.roomId thumbOnM1) ''A'' (roomManager chatroom)"
    by (simp add: chatroom_eval isUserInRoom_def thumbOnM1_def)
  have memberB: "isUserInRoom (MessageReaction.roomId thumbOnM1) ''B'' (roomManager chatroom)"
    by (simp add: chatroom_eval isUserInRoom_def thumbOnM1_def)
  have userB: "find (\<lambda>u. socketId u = ''B'')
                (getRoomUsers (MessageReaction.roomId thumbOnM1) (roomManager chatroom)) = Some bob"
    by (simp add: chatroom_eval getRoomUsers_def thumbOnM1_def alice_def bob_def)
  have userA: "find (\<lambda>u. socketId u = ''A'')
                (getRoomUsers (MessageReaction.roomId thumbOnM1) (roomManager chatroom)) = Some alice"
    by (simp add: chatroom_eval getRoomUsers_def thumbOnM1_def alice_def bob_def)
  have absent: "\<not> hasUserReacted ''m1'' ''B'' thumbsUp (reactionManager chatroom)"
    by (simp add: chatroom_eval hasUserReacted_def)
  have both: "reactionManager ?both =
      ReactionManager_run [AddReaction ''m1'' ?a, AddReaction ''m1'' ?b]"
    using memberA memberB userA userB
    by (simp add: react_eval thumbOnM1_def alice_def bob_def chatroom_eval
        ReactionManager_run_def ReactionManager_init_def hasUserReacted_def addReaction_def
        Let_def thumbsUp_def)
  have both_val: "reactionManager ?both = \<lparr>reactions = [(''m1'', [(thumbsUp, [?a, ?b])])]\<rparr>"
    by (simp add: both ReactionManager_run_def ReactionManager_init_def addReaction_def Let_def
        thumbsUp_def)
  have present: "hasUserReacted ''m1'' ''A'' thumbsUp (reactionManager ?both)"
    by (simp add: both_val hasUserReacted_def)
  have rooms: "roomManager ?both = roomManager chatroom"
    by (simp add: react_eval)
  note first = toggle_twice [OF start memberB userB memberB userB refl refl refl,
      where now = 10 and now' = 11 and ev = "''message:reaction''" and ev' = "''message:reaction''",
      folded react_def]
  note second = toggle_twice [OF both memberA [folded rooms] userA [folded rooms]
      memberA [folded rooms] userA [folded rooms] refl refl refl,
      where now = 12 and now' = 13 and ev = "''message:reaction''" and ev' = "''message:reaction''",
      folded react_def]
  have "reactionManager (react 11 ''B'' (react 10 ''B'' chatroom)) = \<lparr>reactions = []\<rparr>"
    using first absent by (simp add: thumbOnM1_def bob_def chatroom_eval)
  moreover have "reactionsBy ''m1'' ''A'' thumbsUp
         (reactionManager (react 13 ''A'' (react 12 ''A'' ?both)))
       = [\<lparr>Reaction.userId = ''A'', username = ''alice'', emoji = thumbsUp, timestamp = 13\<rparr>]"
    using second present by (simp add: thumbOnM1_def alice_def)
  moreover have "reactions (reactionManager (react 13 ''A'' (react 12 ''A'' ?both)))
       = [(''m1'',
           [(thumbsUp,
             [?b, \<lparr>Reaction.userId = ''A'', username = ''alice'', emoji = thumbsUp,
                    timestamp = 13\<rparr>])])]"
    using second present
    by (simp add: thumbOnM1_def alice_def both_val getReactions_def bucketOf_def Let_def
        thumbsUp_def)
  ultimately show ?thesis
    using start memberB userB absent present by (simp add: thumbOnM1_def)
qed

text \<open>
  Claim C2 as stated fails when the user already holds the reaction. Alice reacts, then
  Bob; Alice then sends the same event twice, both at the time of her first reaction. Her
  record is dropped and added again behind Bob's, so the reaction manager is not in the
  state it had before the two events.
\<close>

theorem toggle_twice_counterexample:
  "hasUserReacted ''m1'' ''A'' thumbsUp (reactionManager (react 11 ''B'' (react 10 ''A'' chatroom)))
   \<and> getReactions ''m1'' (reactionManager (react 11 ''B'' (react 10 ''A'' chatroom)))
       = [(thumbsUp,
           [\<lparr>Reaction.userId = ''A'', username = ''alice'', emoji = thumbsUp, timestamp = 10\<rparr>,
            \<lparr>Reaction.userId = ''B'', username = ''bob'', emoji = thumbsUp, timestamp = 11\<rparr>])]
   \<and> getReactions ''m1''
         (reactionManager (react 10 ''A'' (react 10 ''A'' (react 11 ''B'' (react 10 ''A'' chatroom)))))
       = [(thumbsUp,
           [\<lparr>Reaction.userId = ''B'', username = ''bob'', emoji = thumbsUp, timestamp = 11\<rparr>,
            \<lparr>Reaction.userId = ''A'', username = ''alice'', emoji = thumbsUp, timestamp = 10\<rparr>])]
   \<and> reactionManager (react 10 ''A'' (react 10 ''A'' (react 11 ''B'' (react 10 ''A'' chatroom))))
       \<noteq> reactionManager (react 11 ''B'' (react 10 ''A'' chatroom))"
  by (simp add: react_eval chatroom_eval isUserInRoom_def getRoomUsers_def alice_def bob_def
      hasUserReacted_def addReaction_def removeReaction_def getReactions_def splice1_def
      thumbsUp_def Let_def)

section \<open>Properties of the MessageRouter\<close>

text \<open>
  Claim C7. \<open>route\<close> fails with the error \<^verbatim>\<open>No handler registered for event\<close> when no
  handler is registered for the event name, and otherwise returns exactly what the
  registered handler returns, error included; so, when the registered handler does not
  fail, \<open>route\<close> fails with that error if and only if no handler is registered.
\<close>

theorem route_errors:
  "(map_of handlers ev = None \<longrightarrow>
      route handlers sid ev dat w =
        (Some (Error (''No handler registered for event: '' @ ev)), w))
   \<and> (\<forall>handler. map_of handlers ev = Some handler \<longrightarrow>
        route handlers sid ev dat w = handler sid ev dat w)
   \<and> ((\<forall>handler. map_of handlers ev = Some handler \<longrightarrow> fst (handler sid ev dat w) = None) \<longrightarrow>
        (fst (route handlers sid ev dat w)
           = Some (Error (''No handler registered for event: '' @ ev))
         \<longleftrightarrow> map_of handlers ev = None))"
  by (auto simp: route_def split: option.splits prod.splits)

theorem route_errors_witness:
  "route (registerHandler ''chat:message'' (handle (Some Inr) (ChatMessageHandler_execute 5)) [])
      ''C'' ''chat:message''
      \<lparr>message = ''hi'', roomId = ''r1'', messageId = ''m1'', timestamp = None\<rparr>
      (Application_after [JoinRoom ''r1'' alice 1])
    = (Some (Error ''User not in room''), Application_after [JoinRoom ''r1'' alice 1])
   \<and> route (registerHandler ''chat:message'' (handle (Some Inr) (ChatMessageHandler_execute 5)) [])
      ''C'' ''chat:edit''
      \<lparr>message = ''hi'', roomId = ''r1'', messageId = ''m1'', timestamp = None\<rparr>
      (Application_after [JoinRoom ''r1'' alice 1])
    = (Some (Error ''No handler registered for event: chat:edit''),
       Application_after [JoinRoom ''r1'' alice 1])"
  using route_errors [of "registerHandler ''chat:message'' (handle (Some Inr) (ChatMessageHandler_execute 5)) []"
      "''chat:message''" "''C''"
      "\<lparr>message = ''hi'', roomId = ''r1'', messageId = ''m1'', timestamp = None\<rparr>"
      "Application_after [JoinRoom ''r1'' alice 1]"]
    route_errors [of "registerHandler ''chat:message'' (handle (Some Inr) (ChatMessageHandler_execute 5)) []"
      "''chat:edit''" "''C''"
      "\<lparr>message = ''hi'', roomId = ''r1'', messageId = ''m1'', timestamp = None\<rparr>"
      "Application_after [JoinRoom ''r1'' alice 1]"]
  by (simp add: registerHandler_def handle_def ChatMessageHandler_execute_def
      Application_after_def RoomManager_eval)

end
